theory Spec2Isabelle
  imports Complex_Main
begin

section \<open>Numbers of the program\<close>

text \<open>
  \<^verbatim>\<open>type Dtype = float64\<close>. The functions of \<^verbatim>\<open>core.go\<close> only move floating point
  values around and hand them to the operators of the language and to \<^verbatim>\<open>math.Sqrt\<close>,
  \<^verbatim>\<open>math.Abs\<close> and \<^verbatim>\<open>math.Erfc\<close>. Their type is a type variable \<open>'f\<close> here and
  the operations are the fields of a record that every function takes as its first
  argument, so that a general theorem below holds for whatever these operations
  compute, the binary64 ones included.
\<close>

record 'f float_ops =
  f_const :: "real \<Rightarrow> 'f"          \<comment> \<open>a literal of the source: \<^verbatim>\<open>0.5\<close>, \<^verbatim>\<open>2\<close>, \<^verbatim>\<open>-1\<close>\<close>
  f_add :: "'f \<Rightarrow> 'f \<Rightarrow> 'f"
  f_mul :: "'f \<Rightarrow> 'f \<Rightarrow> 'f"
  f_div :: "'f \<Rightarrow> 'f \<Rightarrow> 'f"
  f_neg :: "'f \<Rightarrow> 'f"
  f_abs :: "'f \<Rightarrow> 'f"               \<comment> \<open>\<^verbatim>\<open>math.Abs\<close>\<close>
  f_sqrt :: "'f \<Rightarrow> 'f"              \<comment> \<open>\<^verbatim>\<open>math.Sqrt\<close>\<close>
  f_erfc :: "'f \<Rightarrow> 'f"              \<comment> \<open>\<^verbatim>\<open>math.Erfc\<close>\<close>

text \<open>The zero value of \<^verbatim>\<open>float64\<close>, which fills a slice made by \<^verbatim>\<open>make\<close>.\<close>

definition f_zero :: "'f float_ops \<Rightarrow> 'f" where
  "f_zero ops = f_const ops 0"

text \<open>
  Go's \<^verbatim>\<open>int\<close> is 64 bits wide on the platforms the package is built for; arithmetic
  on it wraps around silently.
\<close>

definition int64 :: "int \<Rightarrow> int" where
  "int64 x = (x + 2 ^ 63) mod 2 ^ 64 - 2 ^ 63"

text \<open>
  A panic ends the call; what the receiver holds afterwards is not modelled. The two
  explicit panics of the source carry the numbers their message prints.
\<close>

datatype panic =
    LenMismatch nat nat      \<comment> \<open>\<^verbatim>\<open>len(data)=%d and len(varnames)=%d are not compatible\<close>\<close>
  | ColumnCount nat nat      \<comment> \<open>\<^verbatim>\<open>Data has incorrect number of columns, %d != %d\<close>\<close>
  | IndexOutOfRange          \<comment> \<open>runtime error: index out of range\<close>
  | MakeSliceLen             \<comment> \<open>runtime error: makeslice: len out of range\<close>
  | LibraryPanic             \<comment> \<open>a panic raised inside gonum\<close>

text \<open>
  \<^verbatim>\<open>make([]float64, n)\<close>. The length above which \<^verbatim>\<open>make\<close> panics as well, or the
  allocation fails, is not modelled.
\<close>

definition make_slice :: "'f float_ops \<Rightarrow> int \<Rightarrow> panic + 'f list" where
  "make_slice ops n = (if n < 0 then Inl MakeSliceLen else Inr (replicate (nat n) (f_zero ops)))"

section \<open>Datasets\<close>

text \<open>
  A slice that the source compares with \<^verbatim>\<open>nil\<close> is an \<open>option\<close> (\<open>None\<close> is
  \<^verbatim>\<open>nil\<close>); a slice that is only measured, indexed and ranged over is a list, where
  \<^verbatim>\<open>nil\<close> and the empty slice behave alike.
\<close>

record 'f basicData =
  data :: "'f list list"
  yname :: string
  varnames :: "string list"
  xnames :: "string list"

record 'f Columnser =
  Names :: "string list"
  Data :: "'f list list"

definition FromColumns :: "'f Columnser \<Rightarrow> string \<Rightarrow> string list \<Rightarrow> 'f basicData" where
  "FromColumns c yname' xnames' =
     (let na = Names c; da = Data c
      in \<lparr>data = da, yname = yname', varnames = na, xnames = xnames'\<rparr>)"

definition NewDataset ::
  "'f list list \<Rightarrow> string list \<Rightarrow> string \<Rightarrow> string list \<Rightarrow> panic + 'f basicData" where
  "NewDataset data' varnames' yname' xnames' =
     (if length data' \<noteq> length varnames'
      then Inl (LenMismatch (length data') (length varnames'))
      else Inr \<lparr>data = data', yname = yname', varnames = varnames', xnames = xnames'\<rparr>)"

text \<open>The four methods of the \<^verbatim>\<open>Dataset\<close> interface on \<^verbatim>\<open>basicData\<close>.\<close>

definition Data_bd :: "'f basicData \<Rightarrow> 'f list list" where
  "Data_bd bd = data bd"

definition Yname :: "'f basicData \<Rightarrow> string" where
  "Yname bd = yname bd"

definition Varnames :: "'f basicData \<Rightarrow> string list" where
  "Varnames bd = varnames bd"

definition Xnames :: "'f basicData \<Rightarrow> string list" where
  "Xnames bd = basicData.xnames bd"

section \<open>Models and results\<close>

datatype HessType = ObsHess | ExpHess

text \<open>
  \<^verbatim>\<open>RegFitter\<close> is an interface; a model is the record of what its methods return.
  \<^verbatim>\<open>Score\<close> and \<^verbatim>\<open>Hessian\<close> write into the buffer they are given: here they map its
  contents before the call to its contents after the call. The parameter type \<open>'p\<close>
  stands for a value of the \<^verbatim>\<open>Parameter\<close> interface.
\<close>

record ('f, 'p) RegFitter =
  NumParams :: int
  NumObs :: int
  Xpos :: "int list"
  Dataset :: "'f list list"
  LogLike :: "'p \<Rightarrow> bool \<Rightarrow> 'f"
  Score :: "'p \<Rightarrow> 'f list \<Rightarrow> 'f list"
  Hessian :: "'p \<Rightarrow> HessType \<Rightarrow> 'f list \<Rightarrow> 'f list"

record ('f, 'p) BaseResults =
  model :: "('f, 'p) RegFitter"
  loglike :: 'f
  params :: "'f list"
  xnames :: "string list"
  vcov :: "'f list option"
  stderr :: "'f list option"
  zscores :: "'f list option"
  pvalues :: "'f list option"

definition NewBaseResults ::
  "('f, 'p) RegFitter \<Rightarrow> 'f \<Rightarrow> 'f list \<Rightarrow> string list \<Rightarrow> 'f list option \<Rightarrow> ('f, 'p) BaseResults" where
  "NewBaseResults model' loglike' params' xnames' vcov' =
     \<lparr>model = model', loglike = loglike', params = params', xnames = xnames', vcov = vcov',
      stderr = None, zscores = None, pvalues = None\<rparr>"

definition Model :: "('f, 'p) BaseResults \<Rightarrow> ('f, 'p) RegFitter" where
  "Model rslt = model rslt"

definition Names_rslt :: "('f, 'p) BaseResults \<Rightarrow> string list" where
  "Names_rslt rslt = BaseResults.xnames rslt"

definition Params :: "('f, 'p) BaseResults \<Rightarrow> 'f list" where
  "Params rslt = params rslt"

definition VCov :: "('f, 'p) BaseResults \<Rightarrow> 'f list option" where
  "VCov rslt = vcov rslt"

definition LogLike_rslt :: "('f, 'p) BaseResults \<Rightarrow> 'f" where
  "LogLike_rslt rslt = loglike rslt"

subsection \<open>Fitted values\<close>

text \<open>
  The inner loop \<^verbatim>\<open>for i := range z { fv[i] += rslt.params[k] * float64(z[i]) }\<close>,
  from index \<open>i\<close> on; the list is what is left of \<open>z\<close>.
\<close>

fun FittedValues_col ::
  "'f float_ops \<Rightarrow> 'f list \<Rightarrow> nat \<Rightarrow> 'f list \<Rightarrow> nat \<Rightarrow> 'f list \<Rightarrow> panic + 'f list" where
  "FittedValues_col ops ps k [] i fv = Inr fv"
| "FittedValues_col ops ps k (x # z) i fv =
     (if length fv \<le> i \<or> length ps \<le> k then Inl IndexOutOfRange
      else FittedValues_col ops ps k z (Suc i) (fv[i := f_add ops (fv ! i) (f_mul ops (ps ! k) x)]))"

text \<open>The outer loop \<^verbatim>\<open>for k, j := range xpos\<close>, from index \<open>k\<close> on.\<close>

fun FittedValues_loop ::
  "'f float_ops \<Rightarrow> 'f list \<Rightarrow> 'f list list \<Rightarrow> nat \<Rightarrow> int list \<Rightarrow> 'f list \<Rightarrow> panic + 'f list" where
  "FittedValues_loop ops ps da k [] fv = Inr fv"
| "FittedValues_loop ops ps da k (j # xpos) fv =
     (if j < 0 \<or> int (length da) \<le> j then Inl IndexOutOfRange
      else (case FittedValues_col ops ps k (da ! nat j) 0 fv of
              Inl e \<Rightarrow> Inl e
            | Inr fv' \<Rightarrow> FittedValues_loop ops ps da (Suc k) xpos fv'))"

definition FittedValues ::
  "'f float_ops \<Rightarrow> ('f, 'p) BaseResults \<Rightarrow> 'f list list option \<Rightarrow> panic + 'f list" where
  "FittedValues ops rslt da =
     (let xpos = Xpos (model rslt);
          da' = (case da of None \<Rightarrow> Dataset (model rslt) | Some d \<Rightarrow> d)
      in if length da' \<noteq> length (Dataset (model rslt))
         then Inl (ColumnCount (length da') (length (Dataset (model rslt))))
         else (case make_slice ops (NumObs (model rslt)) of
                 Inl e \<Rightarrow> Inl e
               | Inr fv \<Rightarrow> FittedValues_loop ops (params rslt) da' 0 xpos fv))"

subsection \<open>Standard errors, z-scores, p-values\<close>

text \<open>
  Each accessor returns its value together with the receiver as the call leaves it.
  The loops run over the indices that are left.
\<close>

fun StdErr_loop :: "'f float_ops \<Rightarrow> 'f list \<Rightarrow> int \<Rightarrow> nat list \<Rightarrow> 'f list \<Rightarrow> panic + 'f list" where
  "StdErr_loop ops v p [] se = Inr se"
| "StdErr_loop ops v p (i # is) se =
     (let k = int64 (int64 (int i * p) + int i)
      in if k < 0 \<or> int (length v) \<le> k then Inl IndexOutOfRange
         else StdErr_loop ops v p is (se[i := f_sqrt ops (v ! nat k)]))"

definition StdErr ::
  "'f float_ops \<Rightarrow> ('f, 'p) BaseResults \<Rightarrow> panic + ('f list option \<times> ('f, 'p) BaseResults)" where
  "StdErr ops rslt =
     (case vcov rslt of
        None \<Rightarrow> Inr (None, rslt)
      | Some v \<Rightarrow>
          (let p = NumParams (model rslt)
           in case stderr rslt of
                Some se \<Rightarrow> Inr (Some se, rslt)
              | None \<Rightarrow>
                  (case make_slice ops p of
                     Inl e \<Rightarrow> Inl e
                   | Inr se0 \<Rightarrow>
                       (case StdErr_loop ops v p [0..<length se0] se0 of
                          Inl e \<Rightarrow> Inl e
                        | Inr se \<Rightarrow> Inr (Some se, rslt\<lparr>stderr := Some se\<rparr>)))))"

fun ZScores_loop :: "'f float_ops \<Rightarrow> 'f list \<Rightarrow> 'f list \<Rightarrow> nat list \<Rightarrow> 'f list \<Rightarrow> panic + 'f list" where
  "ZScores_loop ops ps std [] zs = Inr zs"
| "ZScores_loop ops ps std (i # is) zs =
     (if length zs \<le> i \<or> length ps \<le> i then Inl IndexOutOfRange
      else ZScores_loop ops ps std is (zs[i := f_div ops (ps ! i) (std ! i)]))"

definition ZScores ::
  "'f float_ops \<Rightarrow> ('f, 'p) BaseResults \<Rightarrow> panic + ('f list option \<times> ('f, 'p) BaseResults)" where
  "ZScores ops rslt =
     (case vcov rslt of
        None \<Rightarrow> Inr (None, rslt)
      | Some v \<Rightarrow>
          (let p = NumParams (model rslt)
           in case zscores rslt of
                Some zs \<Rightarrow> Inr (Some zs, rslt)
              | None \<Rightarrow>
                  (case make_slice ops p of
                     Inl e \<Rightarrow> Inl e
                   | Inr zs0 \<Rightarrow>
                       (case StdErr ops (rslt\<lparr>zscores := Some zs0\<rparr>) of
                          Inl e \<Rightarrow> Inl e
                        | Inr (std, rslt') \<Rightarrow>
                            (let std' = (case std of None \<Rightarrow> [] | Some s \<Rightarrow> s)
                             in case ZScores_loop ops (params rslt') std' [0..<length std'] zs0 of
                                  Inl e \<Rightarrow> Inl e
                                | Inr zs \<Rightarrow> Inr (Some zs, rslt'\<lparr>zscores := Some zs\<rparr>))))))"

definition normcdf :: "'f float_ops \<Rightarrow> 'f \<Rightarrow> 'f" where
  "normcdf ops x =
     f_mul ops (f_const ops 0.5) (f_erfc ops (f_div ops (f_neg ops x) (f_sqrt ops (f_const ops 2))))"

fun PValues_loop :: "'f float_ops \<Rightarrow> 'f list \<Rightarrow> nat list \<Rightarrow> 'f list \<Rightarrow> panic + 'f list" where
  "PValues_loop ops zs [] pv = Inr pv"
| "PValues_loop ops zs (i # is) pv =
     (if length pv \<le> i then Inl IndexOutOfRange
      else PValues_loop ops zs is
             (pv[i := f_mul ops (f_const ops 2) (normcdf ops (f_neg ops (f_abs ops (zs ! i))))]))"

definition PValues ::
  "'f float_ops \<Rightarrow> ('f, 'p) BaseResults \<Rightarrow> panic + ('f list option \<times> ('f, 'p) BaseResults)" where
  "PValues ops rslt =
     (case vcov rslt of
        None \<Rightarrow> Inr (None, rslt)
      | Some v \<Rightarrow>
          (let p = NumParams (model rslt)
           in case pvalues rslt of
                Some pv \<Rightarrow> Inr (Some pv, rslt)
              | None \<Rightarrow>
                  (case make_slice ops p of
                     Inl e \<Rightarrow> Inl e
                   | Inr pv0 \<Rightarrow>
                       (let zs = (case zscores rslt of None \<Rightarrow> [] | Some z \<Rightarrow> z)
                        in case PValues_loop ops zs [0..<length zs] pv0 of
                             Inl e \<Rightarrow> Inl e
                           | Inr pv \<Rightarrow> Inr (Some pv, rslt\<lparr>pvalues := Some pv\<rparr>)))))"

subsection \<open>The covariance matrix\<close>

text \<open>
  \<^verbatim>\<open>mat.NewDense\<close> and \<^verbatim>\<open>Inverse\<close> belong to gonum, not to this repository. The
  argument \<open>Inverse\<close> stands for the three calls
  \<^verbatim>\<open>hmat := mat.NewDense(nvar, nvar, hess)\<close>, \<^verbatim>\<open>himat := mat.NewDense(nvar, nvar, hessi)\<close>
  and \<^verbatim>\<open>err := himat.Inverse(hmat)\<close>: from \<open>nvar\<close>, the contents of \<open>hess\<close> and the
  contents of \<open>hessi\<close> it gives a panic, or the contents of \<open>hessi\<close> afterwards with
  the error (\<open>None\<close> is \<^verbatim>\<open>nil\<close>). \<^verbatim>\<open>himat.Scale(-1, himat)\<close> multiplies every element
  by \<open>-1\<close>.
\<close>

type_synonym ('f, 'e) gonum_inverse = "int \<Rightarrow> 'f list \<Rightarrow> 'f list \<Rightarrow> panic + ('f list \<times> 'e option)"

definition Scale :: "'f float_ops \<Rightarrow> real \<Rightarrow> 'f list \<Rightarrow> 'f list" where
  "Scale ops f a = map (\<lambda>v. f_mul ops (f_const ops f) v) a"

text \<open>What \<^verbatim>\<open>os.Stderr.Write\<close> receives when the inversion fails.\<close>

definition cant_invert :: string where
  "cant_invert = ''Can'' @ [CHR 0x27] @ ''t invert Hessian'' @ [CHR 0x0A]"

text \<open>
  The result is the pair that \<^verbatim>\<open>GetVcov\<close> returns, together with the bytes written to
  the standard error stream.
\<close>

definition GetVcov ::
  "'f float_ops \<Rightarrow> ('f, 'e) gonum_inverse \<Rightarrow> ('f, 'p) RegFitter \<Rightarrow> 'p
     \<Rightarrow> panic + (('f list option \<times> 'e option) \<times> string)" where
  "GetVcov ops Inverse model' params' =
     (let nvar = NumParams model';
          n2 = int64 (nvar * nvar)
      in case make_slice ops n2 of
           Inl e \<Rightarrow> Inl e
         | Inr hess0 \<Rightarrow>
             (let hess = Hessian model' params' ExpHess hess0
              in case make_slice ops n2 of
                   Inl e \<Rightarrow> Inl e
                 | Inr hessi0 \<Rightarrow>
                     (case Inverse nvar hess hessi0 of
                        Inl e \<Rightarrow> Inl e
                      | Inr (hessi, Some err) \<Rightarrow> Inr ((None, Some err), cant_invert)
                      | Inr (hessi, None) \<Rightarrow> Inr ((Some (Scale ops (- 1) hessi), None), []))))"

text \<open>
  The product of two \<open>n \<times> n\<close> matrices stored row by row, and the identity matrix, in
  the arithmetic of \<open>ops\<close>: the words in which a matrix is said to have an inverse.
  Entry \<open>(i, j)\<close> of a matrix \<open>a\<close> is \<open>a ! (i * n + j)\<close>.
\<close>

definition mat_entry :: "'f float_ops \<Rightarrow> nat \<Rightarrow> 'f list \<Rightarrow> 'f list \<Rightarrow> nat \<Rightarrow> nat \<Rightarrow> 'f" where
  "mat_entry ops n a b i j =
     foldl (\<lambda>acc k. f_add ops acc (f_mul ops (a ! (i * n + k)) (b ! (k * n + j)))) (f_zero ops) [0..<n]"

definition mat_mul :: "'f float_ops \<Rightarrow> nat \<Rightarrow> 'f list \<Rightarrow> 'f list \<Rightarrow> 'f list" where
  "mat_mul ops n a b = map (\<lambda>q. mat_entry ops n a b (q div n) (q mod n)) [0..<n * n]"

definition mat_identity :: "'f float_ops \<Rightarrow> nat \<Rightarrow> 'f list" where
  "mat_identity ops n =
     map (\<lambda>q. if q div n = q mod n then f_const ops 1 else f_zero ops) [0..<n * n]"

section \<open>The summary table\<close>

text \<open>
  \<open>'c\<close> is the type of a column (\<^verbatim>\<open>interface{}\<close> in the source). A string is the list
  of its bytes and \<^verbatim>\<open>len\<close> counts them. The widths are sums of lengths of strings held
  in memory, far from the range where \<^verbatim>\<open>int\<close> wraps.
\<close>

record 'c SummaryTable =
  Title :: string
  ColNames :: "string list"
  ColFmt :: "('c \<Rightarrow> string \<Rightarrow> string list) list"
  Cols :: "'c list"
  Top :: "string list"
  Msg :: "string list"
  tw :: int

definition newline :: string where
  "newline = [CHR 0x0A]"

text \<open>\<^verbatim>\<open>strings.Repeat\<close>, called with counts that are never negative.\<close>

definition Repeat :: "string \<Rightarrow> nat \<Rightarrow> string" where
  "Repeat c n = concat (replicate n c)"

text \<open>
  \<^verbatim>\<open>fmt.Sprintf("%-Ns", x)\<close> and \<^verbatim>\<open>fmt.Sprintf("%Ns", x)\<close> pad \<open>x\<close> with spaces to \<open>N\<close>
  characters and never cut it. \<^verbatim>\<open>fmt\<close> counts characters, not bytes: in a string
  that is valid UTF-8, the bytes that do not continue a character. (In a string that
  is not, \<^verbatim>\<open>fmt\<close> counts every invalid byte as a character; that is not modelled.)
\<close>

definition RuneCount :: "string \<Rightarrow> nat" where
  "RuneCount x = length (filter (\<lambda>c. \<not> (128 \<le> (of_char c :: nat) \<and> (of_char c :: nat) < 192)) x)"

definition Sprintf_left :: "nat \<Rightarrow> string \<Rightarrow> string" where
  "Sprintf_left n x = x @ replicate (n - RuneCount x) (CHR '' '')"

definition Sprintf_right :: "nat \<Rightarrow> string \<Rightarrow> string" where
  "Sprintf_right n x = replicate (n - RuneCount x) (CHR '' '') @ x"

definition line :: "'c SummaryTable \<Rightarrow> string \<Rightarrow> string" where
  "line s c = Repeat c (nat (tw s)) @ newline"

definition cleanTop :: "'c SummaryTable \<Rightarrow> panic + 'c SummaryTable" where
  "cleanTop s =
     (case Top s of
        [] \<Rightarrow> Inl IndexOutOfRange
      | x0 # _ \<Rightarrow>
          (let w = foldl (\<lambda>w x. if length x > w then length x else w) (length x0) (Top s)
           in Inr (s\<lparr>Top := map (\<lambda>x. if length x < w then x @ Repeat '' '' (w - length x) else x)
                               (Top s)\<rparr>)))"

fun top_widths :: "nat \<Rightarrow> string list \<Rightarrow> nat list \<Rightarrow> nat list" where
  "top_widths j [] w = w"
| "top_widths j (x # xs) w =
     top_widths (Suc j) xs (if length x > w ! (j mod 2) then w[j mod 2 := length x] else w)"

fun top_rows :: "nat list \<Rightarrow> nat \<Rightarrow> nat \<Rightarrow> string list \<Rightarrow> string" where
  "top_rows w gap j [] = []"
| "top_rows w gap j (x # xs) =
     Sprintf_left (w ! (j mod 2)) x
     @ (if j mod 2 = 1 then newline else Repeat '' '' gap)
     @ top_rows w gap (Suc j) xs"

definition top_part :: "'c SummaryTable \<Rightarrow> nat \<Rightarrow> string" where
  "top_part s gap =
     top_rows (top_widths 0 (Top s) [0, 0]) gap 0 (Top s)
     @ (if length (Top s) mod 2 = 1 then newline else [])"

text \<open>
  The first loop of \<^verbatim>\<open>String\<close>, from column \<open>j\<close> on, with \<open>tab\<close> and \<open>wx\<close> as they
  stand: it formats each column and records its width.
\<close>

fun String_cols ::
  "'c SummaryTable \<Rightarrow> nat \<Rightarrow> 'c list \<Rightarrow> string list list \<Rightarrow> nat list
     \<Rightarrow> panic + (string list list \<times> nat list)" where
  "String_cols s j [] tab wx = Inr (tab, wx)"
| "String_cols s j (c # cs) tab wx =
     (if length (ColFmt s) \<le> j \<or> length (ColNames s) \<le> j then Inl IndexOutOfRange
      else (let u = (ColFmt s ! j) c (ColNames s ! j)
            in case u of
                 [] \<Rightarrow> Inl IndexOutOfRange
               | u0 # _ \<Rightarrow>
                   String_cols s (Suc j) cs (tab @ [u])
                     (wx @ [if length u0 > length (ColNames s ! j) then length u0
                            else length (ColNames s ! j)])))"

text \<open>The header row, from column \<open>j\<close> on.\<close>

fun String_header :: "nat list \<Rightarrow> nat \<Rightarrow> string list \<Rightarrow> panic + string" where
  "String_header wx j [] = Inr []"
| "String_header wx j (c # cs) =
     (if length wx \<le> j then Inl IndexOutOfRange
      else (case String_header wx (Suc j) cs of
              Inl e \<Rightarrow> Inl e
            | Inr rest \<Rightarrow> Inr (Sprintf_right (wx ! j) c @ rest)))"

text \<open>Row \<open>i\<close> of the body, over the columns \<open>js\<close>, and the rows \<open>is\<close> of the body.\<close>

fun String_row :: "string list list \<Rightarrow> nat list \<Rightarrow> nat \<Rightarrow> nat list \<Rightarrow> panic + string" where
  "String_row tab wx i [] = Inr newline"
| "String_row tab wx i (j # js) =
     (if length (tab ! j) \<le> i then Inl IndexOutOfRange
      else (case String_row tab wx i js of
              Inl e \<Rightarrow> Inl e
            | Inr rest \<Rightarrow> Inr (Sprintf_right (wx ! j) (tab ! j ! i) @ rest)))"

fun String_rows :: "string list list \<Rightarrow> nat list \<Rightarrow> nat list \<Rightarrow> panic + string" where
  "String_rows tab wx [] = Inr []"
| "String_rows tab wx (i # is) =
     (case String_row tab wx i [0..<length tab] of
        Inl e \<Rightarrow> Inl e
      | Inr row \<Rightarrow>
          (case String_rows tab wx is of
             Inl e \<Rightarrow> Inl e
           | Inr rest \<Rightarrow> Inr (row @ rest)))"

text \<open>
  \<^verbatim>\<open>String\<close> returns the text and leaves the receiver with its \<^verbatim>\<open>Top\<close> padded and its
  \<^verbatim>\<open>tw\<close> set.
\<close>

definition String :: "'c SummaryTable \<Rightarrow> panic + (string \<times> 'c SummaryTable)" where
  "String s0 =
     (case cleanTop s0 of
        Inl e \<Rightarrow> Inl e
      | Inr s1 \<Rightarrow>
          (case String_cols s1 0 (Cols s1) [] [] of
             Inl e \<Rightarrow> Inl e
           | Inr (tab, wx) \<Rightarrow>
               (let gap = 10;
                    tw0 = foldl (\<lambda>t w. t + int w) 0 wx;
                    tw1 = (if tw0 < int (length (Title s1)) then int (length (Title s1)) else tw0);
                    tw2 = (if tw1 < gap + 2 * int (length (Top s1 ! 0))
                           then gap + 2 * int (length (Top s1 ! 0)) else tw1);
                    s = s1\<lparr>tw := tw2\<rparr>;
                    k = int (length (Title s));
                    kr0 = (tw s - k) div 2;
                    kr = (if kr0 < 0 then 0 else kr0);
                    head = Repeat '' '' (nat kr) @ Title s @ newline
                           @ line s ''='' @ top_part s (nat gap) @ line s ''-''
                in case String_header wx 0 (ColNames s) of
                     Inl e \<Rightarrow> Inl e
                   | Inr hdr \<Rightarrow>
                       (case tab of
                          [] \<Rightarrow> Inl IndexOutOfRange
                        | t0 # _ \<Rightarrow>
                            (case String_rows tab wx [0..<length t0] of
                               Inl e \<Rightarrow> Inl e
                             | Inr body \<Rightarrow>
                                 Inr (head @ hdr @ newline @ line s ''-'' @ body @ line s ''-''
                                      @ concat (map (\<lambda>msg. msg @ newline) (Msg s)), s))))))"

section \<open>States of a results value\<close>

text \<open>
  The fields of \<^verbatim>\<open>BaseResults\<close> are not exported: outside the package a value is made
  by \<^verbatim>\<open>NewBaseResults\<close> and changes only when one of the three accessors fills its
  cache. \<open>reachable ops r0 r\<close>: the value \<open>r0\<close> has become \<open>r\<close> after some calls of
  the accessors, none of which panicked. Slices are values here: a caller that writes
  into a slice it has passed to \<^verbatim>\<open>NewBaseResults\<close> or got back from an accessor is
  outside the model.
\<close>

inductive reachable ::
  "'f float_ops \<Rightarrow> ('f, 'p) BaseResults \<Rightarrow> ('f, 'p) BaseResults \<Rightarrow> bool"
  for ops :: "'f float_ops" and r0 :: "('f, 'p) BaseResults" where
  start: "reachable ops r0 r0"
| after_StdErr: "reachable ops r0 r \<Longrightarrow> StdErr ops r = Inr (x, r') \<Longrightarrow> reachable ops r0 r'"
| after_ZScores: "reachable ops r0 r \<Longrightarrow> ZScores ops r = Inr (x, r') \<Longrightarrow> reachable ops r0 r'"
| after_PValues: "reachable ops r0 r \<Longrightarrow> PValues ops r = Inr (x, r') \<Longrightarrow> reachable ops r0 r'"

text \<open>The values that a full cache holds, for a covariance matrix \<open>v\<close> and \<open>p\<close> parameters.\<close>

definition stderr_of :: "'f float_ops \<Rightarrow> 'f list \<Rightarrow> nat \<Rightarrow> 'f list" where
  "stderr_of ops v p = map (\<lambda>i. f_sqrt ops (v ! (i * p + i))) [0..<p]"

definition zscores_of :: "'f float_ops \<Rightarrow> 'f list \<Rightarrow> 'f list \<Rightarrow> nat \<Rightarrow> 'f list" where
  "zscores_of ops ps v p = map (\<lambda>i. f_div ops (ps ! i) (stderr_of ops v p ! i)) [0..<p]"

definition pvalue_of :: "'f float_ops \<Rightarrow> 'f \<Rightarrow> 'f" where
  "pvalue_of ops z = f_mul ops (f_const ops 2) (normcdf ops (f_neg ops (f_abs ops z)))"

section \<open>Exact arithmetic, for concrete inputs\<close>

text \<open>
  To run the functions on a concrete input the operations must be concrete. The
  instance below computes exactly on the real numbers extended by the two infinities
  and NaN, as IEEE 754 arithmetic would without rounding and without the sign of zero
  (a zero divisor counts as positive). It is used on inputs where binary64 arithmetic
  rounds nothing. \<open>erfc_real\<close> is the complementary error function, by the power series
  of the error function.
\<close>

datatype xreal = Finite real | PInf | NInf | NaN

definition erfc_real :: "real \<Rightarrow> real" where
  "erfc_real x =
     1 - (2 / sqrt pi) * (\<Sum>n. (- 1) ^ n * x ^ (2 * n + 1) / (fact n * of_nat (2 * n + 1)))"

fun x_neg :: "xreal \<Rightarrow> xreal" where
  "x_neg (Finite a) = Finite (- a)"
| "x_neg PInf = NInf"
| "x_neg NInf = PInf"
| "x_neg NaN = NaN"

fun x_abs :: "xreal \<Rightarrow> xreal" where
  "x_abs (Finite a) = Finite \<bar>a\<bar>"
| "x_abs PInf = PInf"
| "x_abs NInf = PInf"
| "x_abs NaN = NaN"

fun x_sqrt :: "xreal \<Rightarrow> xreal" where
  "x_sqrt (Finite a) = (if a < 0 then NaN else Finite (sqrt a))"
| "x_sqrt PInf = PInf"
| "x_sqrt NInf = NaN"
| "x_sqrt NaN = NaN"

fun x_erfc :: "xreal \<Rightarrow> xreal" where
  "x_erfc (Finite a) = Finite (erfc_real a)"
| "x_erfc PInf = Finite 0"
| "x_erfc NInf = Finite 2"
| "x_erfc NaN = NaN"

fun x_add :: "xreal \<Rightarrow> xreal \<Rightarrow> xreal" where
  "x_add (Finite a) (Finite b) = Finite (a + b)"
| "x_add NaN y = NaN"
| "x_add x NaN = NaN"
| "x_add PInf NInf = NaN"
| "x_add NInf PInf = NaN"
| "x_add PInf y = PInf"
| "x_add x PInf = PInf"
| "x_add NInf y = NInf"
| "x_add x NInf = NInf"

text \<open>The infinity with the sign of \<open>a\<close>, or NaN where \<open>a\<close> is zero.\<close>

definition x_inf :: "real \<Rightarrow> xreal" where
  "x_inf a = (if a = 0 then NaN else if 0 < a then PInf else NInf)"

fun x_mul :: "xreal \<Rightarrow> xreal \<Rightarrow> xreal" where
  "x_mul (Finite a) (Finite b) = Finite (a * b)"
| "x_mul NaN y = NaN"
| "x_mul x NaN = NaN"
| "x_mul (Finite a) PInf = x_inf a"
| "x_mul (Finite a) NInf = x_inf (- a)"
| "x_mul PInf (Finite b) = x_inf b"
| "x_mul NInf (Finite b) = x_inf (- b)"
| "x_mul PInf PInf = PInf"
| "x_mul PInf NInf = NInf"
| "x_mul NInf PInf = NInf"
| "x_mul NInf NInf = PInf"

fun x_div :: "xreal \<Rightarrow> xreal \<Rightarrow> xreal" where
  "x_div (Finite a) (Finite b) = (if b = 0 then x_inf a else Finite (a / b))"
| "x_div NaN y = NaN"
| "x_div x NaN = NaN"
| "x_div (Finite a) PInf = Finite 0"
| "x_div (Finite a) NInf = Finite 0"
| "x_div PInf (Finite b) = (if 0 \<le> b then PInf else NInf)"
| "x_div NInf (Finite b) = (if 0 \<le> b then NInf else PInf)"
| "x_div PInf y = NaN"
| "x_div NInf y = NaN"

definition exact_ops :: "xreal float_ops" where
  "exact_ops =
     \<lparr>f_const = Finite, f_add = x_add, f_mul = x_mul, f_div = x_div, f_neg = x_neg,
      f_abs = x_abs, f_sqrt = x_sqrt, f_erfc = x_erfc\<rparr>"

text \<open>
  An inverse for the concrete inputs: exact, by the adjugate, for a matrix of one or
  four finite numbers; the error of gonum (\<^verbatim>\<open>mat.Condition\<close>) where the determinant is
  zero; a panic for any other input.
\<close>

datatype gonum_error = Condition

fun adjugate_inverse :: "(xreal, gonum_error) gonum_inverse" where
  "adjugate_inverse n [Finite a] [z] =
     (if n \<noteq> 1 then Inl LibraryPanic
      else if a = 0 then Inr ([z], Some Condition)
      else Inr ([Finite (1 / a)], None))"
| "adjugate_inverse n [Finite a, Finite b, Finite c, Finite d] [z0, z1, z2, z3] =
     (if n \<noteq> 2 then Inl LibraryPanic
      else if a * d - b * c = 0 then Inr ([z0, z1, z2, z3], Some Condition)
      else Inr ([Finite (d / (a * d - b * c)), Finite (- b / (a * d - b * c)),
                 Finite (- c / (a * d - b * c)), Finite (a / (a * d - b * c))], None))"
| "adjugate_inverse n h hi = Inl LibraryPanic"

text \<open>
  gonum's \<^verbatim>\<open>Inverse\<close> also reports \<^verbatim>\<open>mat.Condition\<close> where the matrix has an inverse but
  its condition number, the product of the norms of the matrix and of its inverse in
  the norm \<^verbatim>\<open>mat.CondNorm\<close> (the largest sum of the absolute values of a row), is above
  \<^verbatim>\<open>mat.ConditionTolerance\<close>, \<open>1e16\<close>; the inverse is then in the receiver all the same.
  The inverse above with this test, in exact arithmetic.
\<close>

fun conditioned_inverse :: "(xreal, gonum_error) gonum_inverse" where
  "conditioned_inverse n [Finite a] [z] =
     (if n \<noteq> 1 then Inl LibraryPanic
      else if a = 0 then Inr ([z], Some Condition)
      else if 10 ^ 16 < \<bar>a\<bar> * \<bar>1 / a\<bar> then Inr ([Finite (1 / a)], Some Condition)
      else Inr ([Finite (1 / a)], None))"
| "conditioned_inverse n [Finite a, Finite b, Finite c, Finite d] [z0, z1, z2, z3] =
     (let det = a * d - b * c;
          hi = [Finite (d / det), Finite (- b / det), Finite (- c / det), Finite (a / det)];
          cond = max (\<bar>a\<bar> + \<bar>b\<bar>) (\<bar>c\<bar> + \<bar>d\<bar>)
                 * max (\<bar>d / det\<bar> + \<bar>- b / det\<bar>) (\<bar>- c / det\<bar> + \<bar>a / det\<bar>)
      in if n \<noteq> 2 then Inl LibraryPanic
         else if det = 0 then Inr ([z0, z1, z2, z3], Some Condition)
         else if 10 ^ 16 < cond then Inr (hi, Some Condition)
         else Inr (hi, None))"
| "conditioned_inverse n h hi = Inl LibraryPanic"

section \<open>Concrete inputs\<close>

text \<open>A model with \<open>p\<close> parameters whose expected and observed Hessian is \<open>h\<close>.\<close>

definition model_of ::
  "int \<Rightarrow> int \<Rightarrow> int list \<Rightarrow> xreal list list \<Rightarrow> xreal list \<Rightarrow> (xreal, unit) RegFitter" where
  "model_of p n xpos cols h =
     \<lparr>NumParams = p, NumObs = n, Xpos = xpos, Dataset = cols,
      LogLike = (\<lambda>_ _. Finite 0), Score = (\<lambda>_ buf. buf), Hessian = (\<lambda>_ _ _. h)\<rparr>"

text \<open>One parameter, estimate \<open>0\<close>, variance \<open>1\<close>.\<close>

definition rslt_one :: "(xreal, unit) BaseResults" where
  "rslt_one =
     NewBaseResults (model_of 1 0 [] [] [Finite (- 1)]) (Finite 0) [Finite 0] [''x1'']
       (Some [Finite 1])"

text \<open>One parameter whose variance is negative.\<close>

definition rslt_negative :: "(xreal, unit) BaseResults" where
  "rslt_negative =
     NewBaseResults (model_of 1 0 [] [] [Finite 1]) (Finite 0) [Finite 3] [''x1'']
       (Some [Finite (- 1)])"

text \<open>Two parameters, estimates \<open>6\<close> and \<open>3\<close>, variances \<open>4\<close> and \<open>1\<close>.\<close>

definition rslt_two :: "(xreal, unit) BaseResults" where
  "rslt_two =
     NewBaseResults (model_of 2 0 [] [] []) (Finite 0) [Finite 6, Finite 3] [''x1'', ''x2'']
       (Some [Finite 4, Finite 0, Finite 0, Finite 1])"

text \<open>
  A model with one parameter and the expected Hessian \<^verbatim>\<open>{-4}\<close>; a model with two
  parameters whose expected Hessian \<^verbatim>\<open>{1, 1, 1, 1 + 0x1p-52}\<close> has the determinant
  \<^verbatim>\<open>0x1p-52\<close>, so an inverse, and a condition number near \<^verbatim>\<open>0x1p54\<close>; and a model whose
  expected Hessian is all zeros.
\<close>

definition model_single :: "(xreal, unit) RegFitter" where
  "model_single = model_of 1 0 [] [] [Finite (- 4)]"

definition model_ill_conditioned :: "(xreal, unit) RegFitter" where
  "model_ill_conditioned =
     model_of 2 0 [] [] [Finite 1, Finite 1, Finite 1, Finite (1 + 1 / 2 ^ 52)]"

definition model_singular :: "(xreal, unit) RegFitter" where
  "model_singular = model_of 2 0 [] [] [Finite 0, Finite 0, Finite 0, Finite 0]"

text \<open>The results of that model, built without a covariance matrix.\<close>

definition rslt_absent :: "(xreal, unit) BaseResults" where
  "rslt_absent =
     NewBaseResults model_singular (Finite (- 5)) [Finite 6, Finite 3] [''x1'', ''x2''] None"

text \<open>
  A model fitted to two observations of two predictors (columns \<open>0\<close> and \<open>1\<close> of three),
  with estimates \<open>2\<close> and \<open>3\<close>.
\<close>

definition rslt_fit :: "(xreal, unit) BaseResults" where
  "rslt_fit =
     NewBaseResults
       (model_of 2 2 [0, 1] [[Finite 1, Finite 2], [Finite 3, Finite 4], [Finite 5, Finite 6]] [])
       (Finite 0) [Finite 2, Finite 3] [''x1'', ''x2''] None"

text \<open>Three columns, of which predictor \<open>1\<close> has three entries, and a dataset of two columns.\<close>

definition data_long :: "xreal list list" where
  "data_long = [[Finite 1, Finite 2], [Finite 3, Finite 4, Finite 7], [Finite 5, Finite 6]]"

definition data_short :: "xreal list list" where
  "data_short = [[Finite 1, Finite 2], [Finite 3, Finite 4]]"

text \<open>
  A table of one column whose formatter returns the strings as they are, of lengths
  \<open>1\<close> and \<open>12\<close>; and a table whose formatter does the same on strings of one length.
\<close>

definition table_ragged :: "string list SummaryTable" where
  "table_ragged =
     \<lparr>Title = ''T'', ColNames = [''h''], ColFmt = [\<lambda>c name. c],
      Cols = [[''a'', ''bbbbbbbbbbbb'']], Top = [[]], Msg = [], tw = 0\<rparr>"

definition table_even :: "string list SummaryTable" where
  "table_even =
     \<lparr>Title = ''Results'', ColNames = [''h'', ''name''], ColFmt = [\<lambda>c name. c, \<lambda>c name. c],
      Cols = [[''ab'', ''cd''], [''x'', ''y'']], Top = [''n: 2'', ''p: 10''], Msg = [''ok''],
      tw = 0\<rparr>"

text \<open>Two parameters, the second with a negative variance.\<close>

definition rslt_mixed :: "(xreal, unit) BaseResults" where
  "rslt_mixed =
     NewBaseResults (model_of 2 0 [] [] []) (Finite 0) [Finite 6, Finite 3] [''x1'', ''x2'']
       (Some [Finite 4, Finite 0, Finite 0, Finite (- 1)])"

section \<open>Properties\<close>

subsection \<open>The loops\<close>

text \<open>
  Where every index is in range, a loop that stores \<open>g i\<close> at each index \<open>i\<close> is a
  \<open>fold\<close> of list updates, and over all indices of the slice it is a \<open>map\<close>.
\<close>

lemma int64_id: "0 \<le> x \<Longrightarrow> x < 2 ^ 63 \<Longrightarrow> int64 x = x"
  by (simp add: int64_def)

lemma diag_index_bound:
  fixes i p :: nat
  assumes "i < p"
  shows "i * p + i < p * p"
proof -
  have "i * p + i < i * p + p" using assms by simp
  also have "\<dots> = Suc i * p" by simp
  also have "\<dots> \<le> p * p" using assms by (metis Suc_leI mult_le_mono1)
  finally show ?thesis .
qed

lemma diag_index_int64:
  fixes i p n :: nat
  assumes "i < p" and "p * p \<le> n" and "int n < 2 ^ 63"
  shows "int64 (int64 (int i * int p) + int i) = int (i * p + i)"
proof -
  have b: "i * p + i < n" using diag_index_bound [OF assms(1)] assms(2) by linarith
  have "i * p \<le> i * p + i" by simp
  then have "int (i * p) < 2 ^ 63" using b assms(3) by linarith
  moreover have "(0::int) \<le> int (i * p)" by (rule of_nat_0_le_iff)
  ultimately have "int64 (int (i * p)) = int (i * p)"
    by (rule int64_id [rotated])
  moreover have "int (i * p + i) < 2 ^ 63" using b assms(3) by linarith
  moreover have "(0::int) \<le> int (i * p + i)" by (rule of_nat_0_le_iff)
  ultimately have "int64 (int64 (int (i * p)) + int i) = int (i * p + i)"
    using int64_id [of "int (i * p + i)"] by simp
  then show ?thesis by simp
qed

lemma fold_update_length:
  "length (fold (\<lambda>i s. s[i := g i]) is s) = length s"
  by (induction "is" arbitrary: s) simp_all

lemma fold_update_nth:
  "j < length s \<Longrightarrow>
   fold (\<lambda>i s. s[i := g i]) is s ! j = (if j \<in> set is then g j else s ! j)"
  by (induction "is" arbitrary: s) (auto simp: nth_list_update)

lemma fold_update_upt:
  "length s = n \<Longrightarrow> fold (\<lambda>i s. s[i := g i]) [0..<n] s = map g [0..<n]"
  by (rule nth_equalityI) (simp_all add: fold_update_length fold_update_nth)

lemma StdErr_loop_fold:
  assumes "\<forall>i\<in>set is. i < p" and "p * p \<le> length v" and "int (length v) < 2 ^ 63"
  shows "StdErr_loop ops v (int p) is se = Inr (fold (\<lambda>i s. s[i := f_sqrt ops (v ! (i * p + i))]) is se)"
  using assms(1)
proof (induction "is" arbitrary: se)
  case Nil
  then show ?case by simp
next
  case (Cons i "is")
  then have i: "i < p" by simp
  have k: "int64 (int64 (int i * int p) + int i) = int (i * p + i)"
    by (rule diag_index_int64 [OF i assms(2,3)])
  have "i * p + i < length v" using diag_index_bound [OF i] assms(2) by linarith
  with Cons k show ?case by (simp del: of_nat_add of_nat_mult)
qed

lemma StdErr_loop_all:
  assumes "p * p \<le> length v" and "int (length v) < 2 ^ 63"
  shows "StdErr_loop ops v (int p) [0..<p] (replicate p z) = Inr (stderr_of ops v p)"
  using StdErr_loop_fold [of "[0..<p]" p v ops "replicate p z"] assms
  by (simp add: fold_update_upt stderr_of_def)

lemma ZScores_loop_fold:
  assumes "\<forall>i\<in>set is. i < length zs \<and> i < length ps"
  shows "ZScores_loop ops ps std is zs = Inr (fold (\<lambda>i s. s[i := f_div ops (ps ! i) (std ! i)]) is zs)"
  using assms by (induction "is" arbitrary: zs) simp_all

lemma ZScores_loop_all:
  assumes "p \<le> length ps"
  shows "ZScores_loop ops ps (stderr_of ops v p) [0..<p] (replicate p z) = Inr (zscores_of ops ps v p)"
  using ZScores_loop_fold [of "[0..<p]" "replicate p z" ps ops "stderr_of ops v p"] assms
  by (simp add: fold_update_upt zscores_of_def)

lemma PValues_loop_fold:
  assumes "\<forall>i\<in>set is. i < length pv"
  shows "PValues_loop ops zs is pv = Inr (fold (\<lambda>i s. s[i := pvalue_of ops (zs ! i)]) is pv)"
  using assms by (induction "is" arbitrary: pv) (simp_all add: pvalue_of_def)

lemma PValues_loop_all:
  "PValues_loop ops zs [0..<length zs] (replicate (length zs) z) = Inr (map (pvalue_of ops) zs)"
proof -
  have "map (\<lambda>i. pvalue_of ops (zs ! i)) [0..<length zs] = map (pvalue_of ops) zs"
    by (rule nth_equalityI) simp_all
  then show ?thesis
    using PValues_loop_fold [of "[0..<length zs]" "replicate (length zs) z" ops zs]
    by (simp add: fold_update_upt)
qed

subsection \<open>One call of an accessor\<close>

lemma StdErr_absent: "vcov r = None \<Longrightarrow> StdErr ops r = Inr (None, r)"
  by (simp add: StdErr_def)

lemma ZScores_absent: "vcov r = None \<Longrightarrow> ZScores ops r = Inr (None, r)"
  by (simp add: ZScores_def)

lemma PValues_absent: "vcov r = None \<Longrightarrow> PValues ops r = Inr (None, r)"
  by (simp add: PValues_def)

lemma StdErr_cached: "vcov r = Some v \<Longrightarrow> stderr r = Some se \<Longrightarrow> StdErr ops r = Inr (Some se, r)"
  by (simp add: StdErr_def)

lemma ZScores_cached: "vcov r = Some v \<Longrightarrow> zscores r = Some zs \<Longrightarrow> ZScores ops r = Inr (Some zs, r)"
  by (simp add: ZScores_def)

lemma PValues_cached: "vcov r = Some v \<Longrightarrow> pvalues r = Some pv \<Longrightarrow> PValues ops r = Inr (Some pv, r)"
  by (simp add: PValues_def)

lemma StdErr_fresh:
  assumes "vcov r = Some v" and "stderr r = None" and "NumParams (model r) = int p"
    and "p * p \<le> length v" and "int (length v) < 2 ^ 63"
  shows "StdErr ops r = Inr (Some (stderr_of ops v p), r\<lparr>stderr := Some (stderr_of ops v p)\<rparr>)"
  using assms by (simp add: StdErr_def make_slice_def StdErr_loop_all)

lemma StdErr_inside_ZScores:
  assumes "vcov r = Some v" and "NumParams (model r) = int p"
    and "p * p \<le> length v" and "int (length v) < 2 ^ 63"
    and "stderr r = None \<or> stderr r = Some (stderr_of ops v p)"
  shows "StdErr ops (r\<lparr>zscores := Some zs0\<rparr>) =
           Inr (Some (stderr_of ops v p), r\<lparr>zscores := Some zs0, stderr := Some (stderr_of ops v p)\<rparr>)"
proof (cases "stderr r")
  case None
  then show ?thesis using assms by (simp add: StdErr_fresh)
next
  case (Some se)
  let ?r1 = "r\<lparr>zscores := Some zs0\<rparr>"
  have se: "stderr ?r1 = Some (stderr_of ops v p)" using Some assms(5) by simp
  moreover have "vcov ?r1 = Some v" using assms(1) by simp
  ultimately have "StdErr ops ?r1 = Inr (Some (stderr_of ops v p), ?r1)"
    by (rule StdErr_cached [rotated])
  moreover have "?r1\<lparr>stderr := Some (stderr_of ops v p)\<rparr> = ?r1"
    using se by simp
  ultimately show ?thesis by simp
qed

lemma ZScores_loop_returns:
  "ZScores_loop ops ps std is zs = Inr zs' \<Longrightarrow> \<forall>i\<in>set is. i < length ps"
  by (induction "is" arbitrary: zs) (auto split: if_splits)

lemma ZScores_fresh:
  assumes "vcov r = Some v" and "zscores r = None" and "NumParams (model r) = int p"
    and "p * p \<le> length v" and "int (length v) < 2 ^ 63" and "p \<le> length (params r)"
    and "stderr r = None \<or> stderr r = Some (stderr_of ops v p)"
  shows "ZScores ops r = Inr (Some (zscores_of ops (params r) v p),
           r\<lparr>stderr := Some (stderr_of ops v p), zscores := Some (zscores_of ops (params r) v p)\<rparr>)"
proof -
  have "length (stderr_of ops v p) = p" by (simp add: stderr_of_def)
  then show ?thesis
    using assms StdErr_inside_ZScores [OF assms(1,3,4,5,7), of "replicate p (f_zero ops)"]
    by (simp add: ZScores_def make_slice_def ZScores_loop_all)
qed

lemma ZScores_fresh_returns:
  assumes "vcov r = Some v" and "zscores r = None" and "NumParams (model r) = int p"
    and "p * p \<le> length v" and "int (length v) < 2 ^ 63"
    and "stderr r = None \<or> stderr r = Some (stderr_of ops v p)"
    and ret: "ZScores ops r = Inr (x, r')"
  shows "p \<le> length (params r)"
proof -
  have len: "length (stderr_of ops v p) = p" by (simp add: stderr_of_def)
  obtain zs where "ZScores_loop ops (params r) (stderr_of ops v p) [0..<p] (replicate p (f_zero ops)) = Inr zs"
    using ret assms(1,2,3) len
      StdErr_inside_ZScores [OF assms(1,3,4,5,6), of "replicate p (f_zero ops)"]
    by (auto simp: ZScores_def make_slice_def split: sum.splits)
  then have "\<forall>i\<in>set [0..<p]. i < length (params r)"
    by (rule ZScores_loop_returns)
  then show ?thesis
    by (cases p) auto
qed

lemma PValues_loop_nil: "PValues_loop ops [] [] pv = Inr pv"
  by simp

lemma PValues_fresh_no_zscores:
  assumes "vcov r = Some v" and "pvalues r = None" and "zscores r = None"
    and "NumParams (model r) = int p"
  shows "PValues ops r = Inr (Some (replicate p (f_zero ops)), r\<lparr>pvalues := Some (replicate p (f_zero ops))\<rparr>)"
  using assms by (simp add: PValues_def make_slice_def)

lemma PValues_fresh_zscores:
  assumes "vcov r = Some v" and "pvalues r = None" and "zscores r = Some zs"
    and "NumParams (model r) = int (length zs)"
  shows "PValues ops r = Inr (Some (map (pvalue_of ops) zs), r\<lparr>pvalues := Some (map (pvalue_of ops) zs)\<rparr>)"
  using assms by (simp add: PValues_def make_slice_def PValues_loop_all)

lemma reachable_absent:
  assumes "reachable ops r0 r" and "vcov r0 = None"
  shows "r = r0"
  using assms
  by (induction rule: reachable.induct) (simp_all add: StdErr_absent ZScores_absent PValues_absent)

lemma reachable_caches:
  assumes reach: "reachable ops r0 r"
    and r0: "r0 = NewBaseResults m ll ps xn (Some v)"
    and p: "NumParams m = int p" and v: "p * p \<le> length v" "int (length v) < 2 ^ 63"
  shows "model r = m \<and> loglike r = ll \<and> params r = ps \<and> BaseResults.xnames r = xn \<and> vcov r = Some v
     \<and> (stderr r = None \<or> stderr r = Some (stderr_of ops v p))
     \<and> (zscores r = None \<or> zscores r = Some (zscores_of ops ps v p))
     \<and> (pvalues r = None \<or> pvalues r = Some (replicate p (f_zero ops))
          \<or> pvalues r = Some (map (pvalue_of ops) (zscores_of ops ps v p)))"
  using reach
proof (induction rule: reachable.induct)
  case start
  show ?case by (simp add: r0 NewBaseResults_def)
next
  case (after_StdErr r x r')
  show ?case
  proof (cases "stderr r")
    case None
    then have "StdErr ops r = Inr (Some (stderr_of ops v p), r\<lparr>stderr := Some (stderr_of ops v p)\<rparr>)"
      using after_StdErr.IH p v by (intro StdErr_fresh) simp_all
    with after_StdErr show ?thesis by auto
  next
    case (Some se)
    then have "StdErr ops r = Inr (Some se, r)"
      using after_StdErr.IH by (intro StdErr_cached) simp_all
    with after_StdErr show ?thesis by auto
  qed
next
  case (after_ZScores r x r')
  show ?case
  proof (cases "zscores r")
    case None
    have "p \<le> length (params r)"
      using None after_ZScores.IH p v after_ZScores.hyps(2)
      by (intro ZScores_fresh_returns [where ops = ops and r = r and v = v]) simp_all
    with None have "ZScores ops r = Inr (Some (zscores_of ops (params r) v p),
           r\<lparr>stderr := Some (stderr_of ops v p), zscores := Some (zscores_of ops (params r) v p)\<rparr>)"
      using after_ZScores.IH p v by (intro ZScores_fresh) simp_all
    with after_ZScores show ?thesis by auto
  next
    case (Some zs)
    then have "ZScores ops r = Inr (Some zs, r)"
      using after_ZScores.IH by (intro ZScores_cached) simp_all
    with after_ZScores show ?thesis by auto
  qed
next
  case (after_PValues r x r')
  show ?case
  proof (cases "pvalues r")
    case None
    note pv = None
    show ?thesis
    proof (cases "zscores r")
      case None
      then have "PValues ops r = Inr (Some (replicate p (f_zero ops)), r\<lparr>pvalues := Some (replicate p (f_zero ops))\<rparr>)"
        using after_PValues.IH p pv by (intro PValues_fresh_no_zscores) simp_all
      with after_PValues show ?thesis by auto
    next
      case (Some zs)
      then have zs: "zs = zscores_of ops ps v p" using after_PValues.IH by simp
      then have "length zs = p" by (simp add: zscores_of_def)
      then have "PValues ops r = Inr (Some (map (pvalue_of ops) zs), r\<lparr>pvalues := Some (map (pvalue_of ops) zs)\<rparr>)"
        using after_PValues.IH p pv Some by (intro PValues_fresh_zscores) simp_all
      with after_PValues zs show ?thesis by auto
    qed
  next
    case (Some pv)
    then have "PValues ops r = Inr (Some pv, r)"
      using after_PValues.IH by (intro PValues_cached) simp_all
    with after_PValues show ?thesis by auto
  qed
qed

text \<open>
  What the hypotheses on the covariance matrix below exclude: with fewer than \<open>p * p\<close>
  entries, or with a negative number of parameters, the first call of \<^verbatim>\<open>StdErr\<close>
  panics.
\<close>

lemma StdErr_loop_panics:
  assumes "i \<in> set is"
    and "int64 (int64 (int i * p) + int i) < 0 \<or> int (length v) \<le> int64 (int64 (int i * p) + int i)"
  shows "StdErr_loop ops v p is se = Inl IndexOutOfRange"
  using assms by (induction "is" arbitrary: se) (auto simp: Let_def)

lemma StdErr_short_covariance:
  assumes "vcov r = Some v" and "stderr r = None" and "NumParams (model r) = int p"
    and "length v < p * p" and "int (p * p) < 2 ^ 63"
  shows "StdErr ops r = Inl IndexOutOfRange"
proof -
  from assms(4) have p: "0 < p" by (cases p) simp_all
  then have last: "p - 1 < p" by simp
  have idx: "(p - 1) * p + (p - 1) = p * p - 1"
    using p by (cases p) simp_all
  have k: "int64 (int64 (int (p - 1) * int p) + int (p - 1)) = int ((p - 1) * p + (p - 1))"
    using diag_index_int64 [OF last, of "p * p"] assms(5) by simp
  have "length v \<le> (p - 1) * p + (p - 1)"
    using assms(4) unfolding idx by simp
  then have "int (length v) \<le> int64 (int64 (int (p - 1) * int p) + int (p - 1))"
    unfolding k by (rule iffD2 [OF of_nat_le_iff])
  then have "StdErr_loop ops v (int p) [0..<p] (replicate p (f_zero ops)) = Inl IndexOutOfRange"
    using last by (intro StdErr_loop_panics [where i = "p - 1"]) simp_all
  then show ?thesis
    using assms(1-3) by (simp add: StdErr_def make_slice_def)
qed

lemma make_slice_negative: "n < 0 \<Longrightarrow> make_slice ops n = Inl MakeSliceLen"
  by (simp add: make_slice_def)

lemma StdErr_negative_count:
  assumes "vcov r = Some v" and "stderr r = None" and "NumParams (model r) < 0"
  shows "StdErr ops r = Inl MakeSliceLen"
  using assms by (simp add: StdErr_def make_slice_def)

subsection \<open>Standard errors\<close>

lemma stderr_of_nth: "i < p \<Longrightarrow> stderr_of ops v p ! i = f_sqrt ops (v ! (i * p + i))"
  by (simp add: stderr_of_def)

lemma zscores_of_nth:
  "i < p \<Longrightarrow> zscores_of ops ps v p ! i = f_div ops (ps ! i) (stderr_of ops v p ! i)"
  by (simp add: zscores_of_def)

lemma StdErr_reachable:
  assumes reach: "reachable ops (NewBaseResults m ll ps xn (Some v)) r"
    and p: "NumParams m = int p" and v: "p * p \<le> length v" "int (length v) < 2 ^ 63"
  shows "StdErr ops r = Inr (Some (stderr_of ops v p), r\<lparr>stderr := Some (stderr_of ops v p)\<rparr>)"
proof -
  note inv = reachable_caches [OF reach refl p v]
  show ?thesis
  proof (cases "stderr r")
    case None
    then show ?thesis using inv p v by (intro StdErr_fresh) simp_all
  next
    case (Some se)
    then have se: "stderr r = Some (stderr_of ops v p)" using inv by simp
    then have "StdErr ops r = Inr (Some (stderr_of ops v p), r)"
      using inv by (intro StdErr_cached) simp_all
    moreover have "r\<lparr>stderr := Some (stderr_of ops v p)\<rparr> = r" using se by simp
    ultimately show ?thesis by simp
  qed
qed

text \<open>
  Claim C8. Take a results value made by \<^verbatim>\<open>NewBaseResults\<close> with a covariance matrix
  \<open>v\<close> that holds the \<open>p \<times> p\<close> entries of a model with \<open>p\<close> parameters, in any
  state \<open>r\<close> that calls of the accessors have brought it to. \<^verbatim>\<open>StdErr\<close> returns the
  vector whose entry \<open>i\<close> is \<^verbatim>\<open>math.Sqrt\<close> of \<open>v[i*p+i]\<close> and leaves it in the cache;
  where the cache was filled already the call changes nothing, and a second call
  returns the cached vector and changes nothing. The vector is computed on the first
  call only: of any results value with a covariance matrix whose cache is filled,
  whatever the cache holds, \<^verbatim>\<open>StdErr\<close> returns what the cache holds and changes nothing.
\<close>

theorem StdErr_sqrt_of_diagonal_cached:
  fixes r :: "('f, 'p) BaseResults"
  assumes reach: "reachable ops (NewBaseResults m ll ps xn (Some v)) r"
    and p: "NumParams m = int p" and v: "p * p \<le> length v" "int (length v) < 2 ^ 63"
  shows "StdErr ops r = Inr (Some (stderr_of ops v p), r\<lparr>stderr := Some (stderr_of ops v p)\<rparr>)
         \<and> (stderr r \<noteq> None \<longrightarrow> r\<lparr>stderr := Some (stderr_of ops v p)\<rparr> = r)
         \<and> StdErr ops (r\<lparr>stderr := Some (stderr_of ops v p)\<rparr>)
             = Inr (Some (stderr_of ops v p), r\<lparr>stderr := Some (stderr_of ops v p)\<rparr>)
         \<and> length (stderr_of ops v p) = p
         \<and> (\<forall>i<p. stderr_of ops v p ! i = f_sqrt ops (v ! (i * p + i)))
         \<and> (\<forall>(r1 :: ('f, 'p) BaseResults) c.
               vcov r1 \<noteq> None \<and> stderr r1 = Some c \<longrightarrow> StdErr ops r1 = Inr (Some c, r1))"
proof -
  let ?se = "stderr_of ops v p" and ?r' = "r\<lparr>stderr := Some (stderr_of ops v p)\<rparr>"
  note inv = reachable_caches [OF reach refl p v]
  have call: "StdErr ops r = Inr (Some ?se, ?r')"
    by (rule StdErr_reachable [OF reach p v])
  have "reachable ops (NewBaseResults m ll ps xn (Some v)) ?r'"
    by (rule after_StdErr [OF reach call])
  from StdErr_reachable [OF this p v]
  have again: "StdErr ops ?r' = Inr (Some ?se, ?r')" by simp
  have same: "stderr r \<noteq> None \<longrightarrow> ?r' = r" using inv by auto
  have len: "length ?se = p" by (simp add: stderr_of_def)
  have nth: "\<forall>i<p. ?se ! i = f_sqrt ops (v ! (i * p + i))"
    by (simp add: stderr_of_nth)
  have cached: "\<forall>(r1 :: ('f, 'p) BaseResults) c.
      vcov r1 \<noteq> None \<and> stderr r1 = Some c \<longrightarrow> StdErr ops r1 = Inr (Some c, r1)"
    by (auto intro: StdErr_cached)
  from call same again len nth cached show ?thesis
    by (intro conjI)
qed

lemma upt_2: "[0..<2] = [0, 1]"
  by (simp add: upt_rec)

theorem StdErr_sqrt_of_diagonal_cached_witness:
  "StdErr exact_ops rslt_two
     = Inr (Some [Finite 2, Finite 1], rslt_two\<lparr>stderr := Some [Finite 2, Finite 1]\<rparr>)
   \<and> StdErr exact_ops (rslt_two\<lparr>stderr := Some [Finite 2, Finite 1]\<rparr>)
     = Inr (Some [Finite 2, Finite 1], rslt_two\<lparr>stderr := Some [Finite 2, Finite 1]\<rparr>)
   \<and> StdErr exact_ops (rslt_two\<lparr>stderr := Some [Finite 7, Finite 8]\<rparr>)
     = Inr (Some [Finite 7, Finite 8], rslt_two\<lparr>stderr := Some [Finite 7, Finite 8]\<rparr>)"
proof -
  have "reachable exact_ops rslt_two rslt_two" by (rule reachable.start)
  then have reach: "reachable exact_ops
      (NewBaseResults (model_of 2 0 [] [] []) (Finite 0) [Finite 6, Finite 3] [''x1'', ''x2'']
         (Some [Finite 4, Finite 0, Finite 0, Finite 1])) rslt_two"
    by (simp add: rslt_two_def)
  have p: "NumParams (model_of 2 0 [] [] []) = int 2"
    and v: "2 * 2 \<le> length [Finite 4, Finite 0, Finite 0, Finite 1]"
      "int (length [Finite 4, Finite 0, Finite 0, Finite 1]) < 2 ^ 63"
    by (simp_all add: model_of_def)
  have se: "stderr_of exact_ops [Finite 4, Finite 0, Finite 0, Finite 1] 2 = [Finite 2, Finite 1]"
    by (simp add: stderr_of_def exact_ops_def upt_2)
  note concl = StdErr_sqrt_of_diagonal_cached [OF reach p v, unfolded se]
  have first: "StdErr exact_ops rslt_two
     = Inr (Some [Finite 2, Finite 1], rslt_two\<lparr>stderr := Some [Finite 2, Finite 1]\<rparr>)"
    by (rule concl [THEN conjunct1])
  have second: "StdErr exact_ops (rslt_two\<lparr>stderr := Some [Finite 2, Finite 1]\<rparr>)
     = Inr (Some [Finite 2, Finite 1], rslt_two\<lparr>stderr := Some [Finite 2, Finite 1]\<rparr>)"
    by (rule concl [THEN conjunct2, THEN conjunct2, THEN conjunct1])
  have held: "vcov (rslt_two\<lparr>stderr := Some [Finite 7, Finite 8]\<rparr>) \<noteq> None
      \<and> stderr (rslt_two\<lparr>stderr := Some [Finite 7, Finite 8]\<rparr>) = Some [Finite 7, Finite 8]"
    by (simp add: rslt_two_def NewBaseResults_def)
  have third: "StdErr exact_ops (rslt_two\<lparr>stderr := Some [Finite 7, Finite 8]\<rparr>)
     = Inr (Some [Finite 7, Finite 8], rslt_two\<lparr>stderr := Some [Finite 7, Finite 8]\<rparr>)"
    using held
    by (rule concl [THEN conjunct2, THEN conjunct2, THEN conjunct2, THEN conjunct2, THEN conjunct2,
          THEN spec, THEN spec, THEN mp])
  from first second third show ?thesis by (intro conjI)
qed

subsection \<open>Z-scores\<close>

text \<open>
  Claim C7. Take a results value made by \<^verbatim>\<open>NewBaseResults\<close> for a model with \<open>p\<close>
  parameters, with at least \<open>p\<close> estimates \<open>ps\<close> and a covariance matrix \<open>v\<close> that holds
  the \<open>p \<times> p\<close> entries, in any state \<open>r\<close> that calls of the accessors have brought it
  to; the first state, where no accessor has been called, is one of them. \<^verbatim>\<open>ZScores\<close>
  returns the vector whose entry \<open>i\<close> is \<^verbatim>\<open>Params()[i]\<close> divided by entry \<open>i\<close> of what
  \<^verbatim>\<open>StdErr\<close> returns afterwards. Where the z-scores were not cached, the call fills the
  cache of the standard errors as well.
\<close>

theorem ZScores_params_over_stderr:
  assumes reach: "reachable ops (NewBaseResults m ll ps xn (Some v)) r"
    and p: "NumParams m = int p" and v: "p * p \<le> length v" "int (length v) < 2 ^ 63"
    and ps: "p \<le> length ps"
    and r': "r' = (if zscores r = None
                   then r\<lparr>stderr := Some (stderr_of ops v p), zscores := Some (zscores_of ops ps v p)\<rparr>
                   else r)"
  shows "ZScores ops r = Inr (Some (zscores_of ops ps v p), r')
         \<and> Params r' = ps
         \<and> StdErr ops r' = Inr (Some (stderr_of ops v p), r'\<lparr>stderr := Some (stderr_of ops v p)\<rparr>)
         \<and> length (zscores_of ops ps v p) = p
         \<and> (\<forall>i<p. zscores_of ops ps v p ! i = f_div ops (Params r' ! i) (stderr_of ops v p ! i))"
proof -
  let ?se = "stderr_of ops v p" and ?zs = "zscores_of ops ps v p"
  note inv = reachable_caches [OF reach refl p v]
  have call: "ZScores ops r = Inr (Some ?zs, r')"
  proof (cases "zscores r")
    case None
    then have "ZScores ops r = Inr (Some (zscores_of ops (params r) v p),
           r\<lparr>stderr := Some ?se, zscores := Some (zscores_of ops (params r) v p)\<rparr>)"
      using inv p v ps by (intro ZScores_fresh) simp_all
    then show ?thesis using None inv r' by simp
  next
    case (Some zs)
    then have "ZScores ops r = Inr (Some zs, r)"
      using inv by (intro ZScores_cached) simp_all
    then show ?thesis using Some inv r' by simp
  qed
  have reach': "reachable ops (NewBaseResults m ll ps xn (Some v)) r'"
    by (rule after_ZScores [OF reach call])
  have se: "StdErr ops r' = Inr (Some ?se, r'\<lparr>stderr := Some ?se\<rparr>)"
    by (rule StdErr_reachable [OF reach' p v])
  have params: "Params r' = ps"
    using reachable_caches [OF reach' refl p v] by (simp add: Params_def)
  have len: "length ?zs = p"
    by (simp add: zscores_of_def)
  have "\<forall>i<p. ?zs ! i = f_div ops (Params r' ! i) (?se ! i)"
    unfolding params by (simp add: zscores_of_nth)
  with call se params len show ?thesis by blast
qed

theorem ZScores_params_over_stderr_witness:
  "ZScores exact_ops rslt_two
     = Inr (Some [Finite 3, Finite 3],
            rslt_two\<lparr>stderr := Some [Finite 2, Finite 1], zscores := Some [Finite 3, Finite 3]\<rparr>)
   \<and> StdErr exact_ops
        (rslt_two\<lparr>stderr := Some [Finite 2, Finite 1], zscores := Some [Finite 3, Finite 3]\<rparr>)
     = Inr (Some [Finite 2, Finite 1],
            rslt_two\<lparr>stderr := Some [Finite 2, Finite 1], zscores := Some [Finite 3, Finite 3]\<rparr>)
   \<and> Params rslt_two = [Finite 6, Finite 3]"
proof -
  have "reachable exact_ops rslt_two rslt_two" by (rule reachable.start)
  then have reach: "reachable exact_ops
      (NewBaseResults (model_of 2 0 [] [] []) (Finite 0) [Finite 6, Finite 3] [''x1'', ''x2'']
         (Some [Finite 4, Finite 0, Finite 0, Finite 1])) rslt_two"
    by (simp add: rslt_two_def)
  have se: "stderr_of exact_ops [Finite 4, Finite 0, Finite 0, Finite 1] 2 = [Finite 2, Finite 1]"
    by (simp add: stderr_of_def exact_ops_def upt_2)
  have zs: "zscores_of exact_ops [Finite 6, Finite 3] [Finite 4, Finite 0, Finite 0, Finite 1] 2
              = [Finite 3, Finite 3]"
    unfolding zscores_of_def se by (simp add: exact_ops_def upt_2)
  have fresh: "zscores rslt_two = None" "Params rslt_two = [Finite 6, Finite 3]"
    by (simp_all add: rslt_two_def NewBaseResults_def Params_def)
  from ZScores_params_over_stderr [OF reach _ _ _ _ refl, of 2]
  show ?thesis unfolding se zs by (simp add: model_of_def fresh)
qed

subsection \<open>A negative variance\<close>

text \<open>
  Against claim C3 as it is stated: with the single variance \<open>-1\<close>, \<^verbatim>\<open>StdErr\<close> returns a
  vector, not \<^verbatim>\<open>nil\<close>, and the vector holds NaN.
\<close>

theorem StdErr_negative_variance_counterexample:
  "vcov rslt_negative = Some [Finite (- 1)]
   \<and> StdErr exact_ops rslt_negative = Inr (Some [NaN], rslt_negative\<lparr>stderr := Some [NaN]\<rparr>)"
  by (simp add: StdErr_def rslt_negative_def NewBaseResults_def model_of_def make_slice_def
      f_zero_def exact_ops_def int64_def)

text \<open>
  Claim C3, amended. Take a results value made by \<^verbatim>\<open>NewBaseResults\<close> with a covariance
  matrix \<open>v\<close> that holds the \<open>p \<times> p\<close> entries of a model with \<open>p\<close> parameters, in any
  state that calls of the accessors have brought it to. \<^verbatim>\<open>StdErr\<close> does not panic and
  does not return \<^verbatim>\<open>nil\<close>: it returns the vector whose entry \<open>i\<close> is \<^verbatim>\<open>math.Sqrt\<close> of
  \<open>v[i*p+i]\<close>, whatever the sign of that entry, and caches it. As \<^verbatim>\<open>math.Sqrt\<close> of a
  negative number is NaN, the entry of a negative variance is NaN.
\<close>

theorem StdErr_never_absent:
  assumes reach: "reachable ops (NewBaseResults m ll ps xn (Some v)) r"
    and p: "NumParams m = int p" and v: "p * p \<le> length v" "int (length v) < 2 ^ 63"
    and se: "se = map (\<lambda>i. f_sqrt ops (v ! (i * p + i))) [0..<p]"
    and nan: "\<forall>x. negative x \<longrightarrow> f_sqrt ops x = nan"
  shows "StdErr ops r = Inr (Some se, r\<lparr>stderr := Some se\<rparr>)
         \<and> length se = p
         \<and> (\<forall>i<p. negative (v ! (i * p + i)) \<longrightarrow> se ! i = nan)"
  using StdErr_reachable [OF reach p v] se nan by (simp add: stderr_of_def)

theorem StdErr_never_absent_witness:
  "StdErr exact_ops rslt_mixed = Inr (Some [Finite 2, NaN], rslt_mixed\<lparr>stderr := Some [Finite 2, NaN]\<rparr>)
   \<and> [Finite 2, NaN] ! 1 = NaN"
proof -
  have "reachable exact_ops rslt_mixed rslt_mixed" by (rule reachable.start)
  then have reach: "reachable exact_ops
      (NewBaseResults (model_of 2 0 [] [] []) (Finite 0) [Finite 6, Finite 3] [''x1'', ''x2'']
         (Some [Finite 4, Finite 0, Finite 0, Finite (- 1)])) rslt_mixed"
    by (simp add: rslt_mixed_def)
  have nan: "\<forall>x. (\<exists>a<0. x = Finite a) \<longrightarrow> f_sqrt exact_ops x = NaN"
    by (auto simp: exact_ops_def)
  have se: "map (\<lambda>i. f_sqrt exact_ops ([Finite 4, Finite 0, Finite 0, Finite (- 1)] ! (i * 2 + i))) [0..<2]
      = [Finite 2, NaN]"
    by (simp add: exact_ops_def upt_2)
  have p: "NumParams (model_of 2 0 [] [] []) = int 2"
    and v: "2 * 2 \<le> length [Finite 4, Finite 0, Finite 0, Finite (- 1)]"
      "int (length [Finite 4, Finite 0, Finite 0, Finite (- 1)]) < 2 ^ 63"
    by (simp_all add: model_of_def)
  have neg: "\<exists>a<0. [Finite 4, Finite 0, Finite 0, Finite (- 1)] ! (1 * 2 + 1) = Finite a"
    by (simp add: eval_nat_numeral)
  from StdErr_never_absent [OF reach p v se [symmetric] nan]
  have call: "StdErr exact_ops rslt_mixed = Inr (Some [Finite 2, NaN], rslt_mixed\<lparr>stderr := Some [Finite 2, NaN]\<rparr>)"
    and each: "\<forall>i<2. (\<exists>a<0. [Finite 4, Finite 0, Finite 0, Finite (- 1)] ! (i * 2 + i) = Finite a)
                  \<longrightarrow> [Finite 2, NaN] ! i = NaN"
    by (rule conjunct1, rule conjunct2 [THEN conjunct2])
  from each neg have "[Finite 2, NaN] ! 1 = NaN"
    by (elim allE [of _ 1] impE) simp_all
  with call show ?thesis by (rule conjI)
qed

lemma erfc_real_0: "erfc_real 0 = 1"
  by (simp add: erfc_real_def)

text \<open>
  Where the z-scores are cached, the first call of \<^verbatim>\<open>PValues\<close> computes
  \<^verbatim>\<open>2 * normcdf(-math.Abs(z))\<close> of each; where they are not, it returns zeros.
\<close>

lemma PValues_after_ZScores:
  assumes "reachable ops (NewBaseResults m ll ps xn (Some v)) r"
    and "NumParams m = int p" and "p * p \<le> length v" and "int (length v) < 2 ^ 63"
    and "pvalues r = None" and "zscores r \<noteq> None"
  shows "PValues ops r = Inr (Some (map (pvalue_of ops) (zscores_of ops ps v p)),
           r\<lparr>pvalues := Some (map (pvalue_of ops) (zscores_of ops ps v p))\<rparr>)"
proof -
  note inv = reachable_caches [OF assms(1) refl assms(2-4)]
  then have zs: "zscores r = Some (zscores_of ops ps v p)" using assms(6) by simp
  have "NumParams (model r) = int (length (zscores_of ops ps v p))"
    using inv assms(2) by (simp add: zscores_of_def)
  with inv show ?thesis
    by (intro PValues_fresh_zscores [OF _ assms(5) zs]) simp_all
qed

lemma PValues_before_ZScores:
  assumes "reachable ops (NewBaseResults m ll ps xn (Some v)) r"
    and "NumParams m = int p" and "p * p \<le> length v" and "int (length v) < 2 ^ 63"
    and "pvalues r = None" and "zscores r = None"
  shows "PValues ops r = Inr (Some (replicate p (f_zero ops)),
           r\<lparr>pvalues := Some (replicate p (f_zero ops))\<rparr>)"
  using reachable_caches [OF assms(1) refl assms(2-4)] assms(2,5,6)
  by (intro PValues_fresh_no_zscores) simp_all

text \<open>
  Claim C1 asks that \<^verbatim>\<open>PValues()[i]\<close> be \<^verbatim>\<open>2 * normcdf(-math.Abs(ZScores()[i]))\<close>
  whichever accessor is called first. On the results value with one parameter,
  estimate \<open>0\<close> and variance \<open>1\<close>, \<^verbatim>\<open>PValues\<close> called first returns \<open>[0]\<close> and caches it;
  \<^verbatim>\<open>ZScores\<close> then returns \<open>[0]\<close>, and \<^verbatim>\<open>PValues\<close> after that still returns \<open>[0]\<close>, while
  \<^verbatim>\<open>2 * normcdf(-math.Abs(0))\<close> is \<open>1\<close>.
\<close>

theorem PValues_first_is_zero_filled:
  "PValues exact_ops rslt_one = Inr (Some [Finite 0], rslt_one\<lparr>pvalues := Some [Finite 0]\<rparr>)
   \<and> ZScores exact_ops (rslt_one\<lparr>pvalues := Some [Finite 0]\<rparr>)
       = Inr (Some [Finite 0],
              rslt_one\<lparr>pvalues := Some [Finite 0], stderr := Some [Finite 1], zscores := Some [Finite 0]\<rparr>)
   \<and> PValues exact_ops
        (rslt_one\<lparr>pvalues := Some [Finite 0], stderr := Some [Finite 1], zscores := Some [Finite 0]\<rparr>)
       = Inr (Some [Finite 0],
              rslt_one\<lparr>pvalues := Some [Finite 0], stderr := Some [Finite 1], zscores := Some [Finite 0]\<rparr>)
   \<and> f_mul exact_ops (f_const exact_ops 2)
        (normcdf exact_ops (f_neg exact_ops (f_abs exact_ops (Finite 0)))) = Finite 1"
  by (simp add: PValues_def ZScores_def StdErr_def rslt_one_def NewBaseResults_def model_of_def
      make_slice_def f_zero_def exact_ops_def int64_def normcdf_def erfc_real_0 Let_def)

subsection \<open>No covariance matrix\<close>

text \<open>
  Claim C4. Where gonum's \<^verbatim>\<open>Inverse\<close> reports an error on the expected Hessian, as it
  does on a singular matrix, \<^verbatim>\<open>GetVcov\<close> returns no matrix and that error, after
  writing a line to the standard error stream. A results value made without a
  covariance matrix returns \<^verbatim>\<open>nil\<close> from \<^verbatim>\<open>StdErr\<close>, \<^verbatim>\<open>ZScores\<close> and \<^verbatim>\<open>PValues\<close> in
  every state, which the calls leave as it was, and \<^verbatim>\<open>Params\<close> and \<^verbatim>\<open>LogLike\<close> return
  the estimates and the log-likelihood it was made with.
\<close>

theorem absent_covariance_no_statistics:
  assumes inv: "Inverse (NumParams m)
                  (Hessian m prm ExpHess (replicate (nat (int64 (NumParams m * NumParams m))) (f_zero ops)))
                  (replicate (nat (int64 (NumParams m * NumParams m))) (f_zero ops)) = Inr (hi, Some err)"
    and n2: "0 \<le> int64 (NumParams m * NumParams m)"
    and reach: "reachable ops (NewBaseResults m ll ps xn None) r"
  shows "GetVcov ops Inverse m prm = Inr ((None, Some err), cant_invert)
         \<and> StdErr ops r = Inr (None, r) \<and> ZScores ops r = Inr (None, r) \<and> PValues ops r = Inr (None, r)
         \<and> Params r = ps \<and> LogLike_rslt r = ll"
proof -
  have "GetVcov ops Inverse m prm = Inr ((None, Some err), cant_invert)"
    using inv n2 by (simp add: GetVcov_def make_slice_def Let_def)
  moreover have r: "r = NewBaseResults m ll ps xn None"
    using reach by (rule reachable_absent) (simp add: NewBaseResults_def)
  then have "vcov r = None" "Params r = ps" "LogLike_rslt r = ll"
    by (simp_all add: NewBaseResults_def Params_def LogLike_rslt_def)
  ultimately show ?thesis
    by (simp add: StdErr_absent ZScores_absent PValues_absent)
qed

theorem absent_covariance_no_statistics_witness:
  "GetVcov exact_ops adjugate_inverse model_singular () = Inr ((None, Some Condition), cant_invert)
   \<and> StdErr exact_ops rslt_absent = Inr (None, rslt_absent)
   \<and> ZScores exact_ops rslt_absent = Inr (None, rslt_absent)
   \<and> PValues exact_ops rslt_absent = Inr (None, rslt_absent)
   \<and> Params rslt_absent = [Finite 6, Finite 3] \<and> LogLike_rslt rslt_absent = Finite (- 5)"
proof -
  have n: "int64 (NumParams model_singular * NumParams model_singular) = 4"
    by (simp add: model_singular_def model_of_def int64_def)
  have z: "replicate (nat 4) (f_zero exact_ops) = [Finite 0, Finite 0, Finite 0, Finite 0]"
    by (simp add: f_zero_def exact_ops_def eval_nat_numeral)
  have inv: "adjugate_inverse (NumParams model_singular)
       (Hessian model_singular () ExpHess
          (replicate (nat (int64 (NumParams model_singular * NumParams model_singular))) (f_zero exact_ops)))
       (replicate (nat (int64 (NumParams model_singular * NumParams model_singular))) (f_zero exact_ops))
     = Inr ([Finite 0, Finite 0, Finite 0, Finite 0], Some Condition)"
    unfolding n z by (simp add: model_singular_def model_of_def)
  have n2: "0 \<le> int64 (NumParams model_singular * NumParams model_singular)"
    unfolding n by simp
  have "reachable exact_ops rslt_absent rslt_absent" by (rule reachable.start)
  then have reach: "reachable exact_ops
      (NewBaseResults model_singular (Finite (- 5)) [Finite 6, Finite 3] [''x1'', ''x2''] None)
      rslt_absent"
    by (simp add: rslt_absent_def)
  show ?thesis
    by (rule absent_covariance_no_statistics
          [where Inverse = adjugate_inverse and m = model_singular and ops = exact_ops,
           OF inv n2 reach])
qed

subsection \<open>Constructing a dataset\<close>

text \<open>
  Against claim C2 as it is stated: a dataset whose response \<open>y\<close> and predictor \<open>z\<close> are
  not among its variable names (\<open>x\<close> alone) is constructed by both constructors, with no
  error.
\<close>

theorem NewDataset_unknown_names_counterexample:
  "NewDataset [[Finite 1, Finite 2]] [''x''] ''y'' [''z'']
     = Inr \<lparr>data = [[Finite 1, Finite 2]], yname = ''y'', varnames = [''x''], xnames = [''z'']\<rparr>
   \<and> ''y'' \<notin> set [''x''] \<and> ''z'' \<notin> set [''x'']
   \<and> FromColumns \<lparr>Names = [''x''], Data = [[Finite 1, Finite 2]]\<rparr> ''y'' [''z'']
     = \<lparr>data = [[Finite 1, Finite 2]], yname = ''y'', varnames = [''x''], xnames = [''z'']\<rparr>"
  by (simp add: NewDataset_def FromColumns_def)

text \<open>
  Claim C2, amended. \<^verbatim>\<open>NewDataset\<close> reports an error at construction, by a panic, exactly
  when the number of columns differs from the number of variable names; otherwise it
  returns the dataset as given, and \<^verbatim>\<open>FromColumns\<close> always does: neither compares the
  response name or the predictor names with the variable names.
\<close>

theorem NewDataset_checks_lengths_only:
  "(length d \<noteq> length vn \<longrightarrow> NewDataset d vn y xs = Inl (LenMismatch (length d) (length vn)))
   \<and> (length d = length vn \<longrightarrow>
        NewDataset d vn y xs = Inr \<lparr>data = d, yname = y, varnames = vn, xnames = xs\<rparr>)
   \<and> FromColumns c y xs = \<lparr>data = Data c, yname = y, varnames = Names c, xnames = xs\<rparr>"
  by (simp add: NewDataset_def FromColumns_def)

theorem NewDataset_checks_lengths_only_witness:
  "NewDataset [[Finite 1], [Finite 2]] [''x''] ''x'' [''x''] = Inl (LenMismatch 2 1)
   \<and> NewDataset [[Finite 1], [Finite 2]] [''x'', ''w''] ''y'' [''z'']
       = Inr \<lparr>data = [[Finite 1], [Finite 2]], yname = ''y'', varnames = [''x'', ''w''],
              xnames = [''z'']\<rparr>
   \<and> FromColumns \<lparr>Names = [''x'', ''w''], Data = [[Finite 1], [Finite 2]]\<rparr> ''y'' [''z'']
       = \<lparr>data = [[Finite 1], [Finite 2]], yname = ''y'', varnames = [''x'', ''w''],
          xnames = [''z'']\<rparr>"
proof -
  have short: "length [[Finite 1], [Finite 2]] \<noteq> length [''x'']"
    and even: "length [[Finite 1], [Finite 2]] = length [''x'', ''w'']"
    by simp_all
  from short even
    NewDataset_checks_lengths_only [of "[[Finite 1], [Finite 2]]" "[''x'']" "''x''" "[''x'']"
      "\<lparr>Names = [''x'', ''w''], Data = [[Finite 1], [Finite 2]]\<rparr>"]
    NewDataset_checks_lengths_only [of "[[Finite 1], [Finite 2]]" "[''x'', ''w'']" "''y''" "[''z'']"
      "\<lparr>Names = [''x'', ''w''], Data = [[Finite 1], [Finite 2]]\<rparr>"]
  show ?thesis by simp
qed

subsection \<open>Fitted values\<close>

text \<open>
  The loops panic with an index out of range only; where they return, the buffer has
  kept its length and held every column they ran over.
\<close>

lemma FittedValues_col_panic:
  "FittedValues_col ops ps k z i fv = Inl e \<Longrightarrow> e = IndexOutOfRange"
  by (induction z arbitrary: i fv) (auto split: if_splits)

lemma FittedValues_col_returns:
  "FittedValues_col ops ps k z i fv = Inr fv' \<Longrightarrow> i \<le> length fv \<Longrightarrow>
     length fv' = length fv \<and> i + length z \<le> length fv \<and> (z \<noteq> [] \<longrightarrow> k < length ps)"
proof (induction z arbitrary: i fv)
  case Nil
  then show ?case by simp
next
  case (Cons x z)
  from Cons.prems have ok: "i < length fv" "k < length ps"
    by (auto split: if_splits)
  with Cons.prems have
    "FittedValues_col ops ps k z (Suc i) (fv[i := f_add ops (fv ! i) (f_mul ops (ps ! k) x)]) = Inr fv'"
    by simp
  from Cons.IH [OF this] ok show ?case by simp
qed

lemma FittedValues_col_total:
  "i + length z \<le> length fv \<Longrightarrow> z = [] \<or> k < length ps \<Longrightarrow>
     \<exists>fv'. FittedValues_col ops ps k z i fv = Inr fv' \<and> length fv' = length fv"
proof (induction z arbitrary: i fv)
  case Nil
  then show ?case by simp
next
  case (Cons x z)
  let ?fv = "fv[i := f_add ops (fv ! i) (f_mul ops (ps ! k) x)]"
  from Cons.prems have k: "k < length ps" and i: "i < length fv" by simp_all
  have "Suc i + length z \<le> length ?fv" using Cons.prems by simp
  from Cons.IH [OF this] k obtain fv' where
    "FittedValues_col ops ps k z (Suc i) ?fv = Inr fv'" "length fv' = length ?fv"
    by blast
  with k i show ?case by simp
qed

lemma FittedValues_loop_panic:
  "FittedValues_loop ops ps da k xpos fv = Inl e \<Longrightarrow> e = IndexOutOfRange"
  by (induction xpos arbitrary: k fv)
     (auto split: if_splits sum.splits dest: FittedValues_col_panic)

lemma FittedValues_loop_returns:
  "FittedValues_loop ops ps da k xpos fv = Inr fv' \<Longrightarrow>
     length fv' = length fv
     \<and> (\<forall>j\<in>set xpos. 0 \<le> j \<and> j < int (length da) \<and> length (da ! nat j) \<le> length fv)"
proof (induction xpos arbitrary: k fv)
  case Nil
  then show ?case by simp
next
  case (Cons j xpos)
  from Cons.prems have j: "0 \<le> j" "j < int (length da)"
    by (auto split: if_splits)
  with Cons.prems obtain fv1 where
    col: "FittedValues_col ops ps k (da ! nat j) 0 fv = Inr fv1" and
    rest: "FittedValues_loop ops ps da (Suc k) xpos fv1 = Inr fv'"
    by (auto split: sum.splits)
  from FittedValues_col_returns [OF col] have "length fv1 = length fv" "length (da ! nat j) \<le> length fv"
    by simp_all
  with Cons.IH [OF rest] j show ?case by simp
qed

lemma FittedValues_loop_total:
  "\<forall>j\<in>set xpos. 0 \<le> j \<and> j < int (length da) \<and> length (da ! nat j) \<le> length fv \<Longrightarrow>
   k + length xpos \<le> length ps \<Longrightarrow>
     \<exists>fv'. FittedValues_loop ops ps da k xpos fv = Inr fv' \<and> length fv' = length fv"
proof (induction xpos arbitrary: k fv)
  case Nil
  then show ?case by simp
next
  case (Cons j xpos)
  then have j: "0 \<le> j" "j < int (length da)" "length (da ! nat j) \<le> length fv" and k: "k < length ps"
    by simp_all
  from FittedValues_col_total [of 0 "da ! nat j" fv k ps ops] j k obtain fv1 where
    col: "FittedValues_col ops ps k (da ! nat j) 0 fv = Inr fv1" and len: "length fv1 = length fv"
    by auto
  from Cons.prems len have
    "\<forall>j\<in>set xpos. 0 \<le> j \<and> j < int (length da) \<and> length (da ! nat j) \<le> length fv1"
    "Suc k + length xpos \<le> length ps"
    by simp_all
  from Cons.IH [OF this] obtain fv' where
    "FittedValues_loop ops ps da (Suc k) xpos fv1 = Inr fv'" "length fv' = length fv1"
    by auto
  with col len j show ?case by simp
qed

text \<open>
  Claim C9. For every results value, \<^verbatim>\<open>FittedValues\<close> on a dataset that is not \<^verbatim>\<open>nil\<close>
  and whose number of columns differs from that of the training dataset panics with
  the two numbers, and returns no vector; and on \<^verbatim>\<open>nil\<close> it does what it does on the
  training dataset itself.
\<close>

theorem FittedValues_column_count:
  "(length d \<noteq> length (Dataset (model r)) \<longrightarrow>
      FittedValues ops r (Some d) = Inl (ColumnCount (length d) (length (Dataset (model r)))))
   \<and> FittedValues ops r None = FittedValues ops r (Some (Dataset (model r)))"
  by (simp add: FittedValues_def)

lemma FittedValues_rslt_fit:
  "FittedValues exact_ops rslt_fit (Some (Dataset (model rslt_fit))) = Inr [Finite 11, Finite 16]"
  by (simp add: FittedValues_def rslt_fit_def NewBaseResults_def model_of_def make_slice_def
      f_zero_def exact_ops_def eval_nat_numeral)

theorem FittedValues_column_count_witness:
  "FittedValues exact_ops rslt_fit (Some data_short) = Inl (ColumnCount 2 3)
   \<and> FittedValues exact_ops rslt_fit None = Inr [Finite 11, Finite 16]"
  using FittedValues_column_count [of data_short rslt_fit exact_ops] FittedValues_rslt_fit
  by (simp add: data_short_def rslt_fit_def NewBaseResults_def model_of_def)

text \<open>
  Claim C10. \<^verbatim>\<open>FittedValues\<close> checks the number of columns only. On a dataset with the
  right number of columns in which a column at a predictor position is longer than
  \<^verbatim>\<open>NumObs()\<close>, the call panics: with an index out of range, as the buffer has
  \<^verbatim>\<open>NumObs()\<close> entries (or in \<^verbatim>\<open>make\<close>, should \<^verbatim>\<open>NumObs()\<close> be negative). Whenever the
  call returns, the result has \<^verbatim>\<open>NumObs()\<close> entries, every predictor position was a
  column of the dataset and no such column was longer than \<^verbatim>\<open>NumObs()\<close>. Under these
  conditions, and with an estimate for every predictor position, the call returns.
\<close>

theorem FittedValues_long_column:
  "(length d = length (Dataset (model r)) \<and> j \<in> set (Xpos (model r)) \<and> 0 \<le> j \<and> j < int (length d)
      \<and> NumObs (model r) < int (length (d ! nat j))
     \<longrightarrow> FittedValues ops r (Some d)
           = Inl (if NumObs (model r) < 0 then MakeSliceLen else IndexOutOfRange))
   \<and> (FittedValues ops r (Some d) = Inr fv
     \<longrightarrow> length d = length (Dataset (model r)) \<and> 0 \<le> NumObs (model r)
         \<and> length fv = nat (NumObs (model r))
         \<and> (\<forall>j\<in>set (Xpos (model r)). 0 \<le> j \<and> j < int (length d)
               \<and> int (length (d ! nat j)) \<le> NumObs (model r)))
   \<and> (length d = length (Dataset (model r)) \<and> 0 \<le> NumObs (model r)
      \<and> length (Xpos (model r)) \<le> length (params r)
      \<and> (\<forall>j\<in>set (Xpos (model r)). 0 \<le> j \<and> j < int (length d)
               \<and> int (length (d ! nat j)) \<le> NumObs (model r))
     \<longrightarrow> (\<exists>fv. FittedValues ops r (Some d) = Inr fv))"
proof (intro conjI impI)
  assume ret: "FittedValues ops r (Some d) = Inr fv"
  then have cols: "length d = length (Dataset (model r))" and n: "0 \<le> NumObs (model r)"
    and loop: "FittedValues_loop ops (params r) d 0 (Xpos (model r))
                 (replicate (nat (NumObs (model r))) (f_zero ops)) = Inr fv"
    by (auto simp: FittedValues_def make_slice_def split: if_splits)
  from FittedValues_loop_returns [OF loop] n
  show "length d = length (Dataset (model r))" "0 \<le> NumObs (model r)"
    "length fv = nat (NumObs (model r))"
    "\<forall>j\<in>set (Xpos (model r)). 0 \<le> j \<and> j < int (length d)
               \<and> int (length (d ! nat j)) \<le> NumObs (model r)"
    using cols by auto
next
  assume a: "length d = length (Dataset (model r)) \<and> j \<in> set (Xpos (model r)) \<and> 0 \<le> j
      \<and> j < int (length d) \<and> NumObs (model r) < int (length (d ! nat j))"
  let ?fv0 = "replicate (nat (NumObs (model r))) (f_zero ops)"
  show "FittedValues ops r (Some d)
          = Inl (if NumObs (model r) < 0 then MakeSliceLen else IndexOutOfRange)"
  proof (cases "NumObs (model r) < 0")
    case True
    then show ?thesis using a by (simp add: FittedValues_def make_slice_def)
  next
    case False
    then have call:
      "FittedValues ops r (Some d) = FittedValues_loop ops (params r) d 0 (Xpos (model r)) ?fv0"
      using a by (simp add: FittedValues_def make_slice_def)
    show ?thesis
    proof (cases "FittedValues_loop ops (params r) d 0 (Xpos (model r)) ?fv0")
      case (Inl e)
      then show ?thesis using call False FittedValues_loop_panic [OF Inl] by simp
    next
      case (Inr fv')
      from FittedValues_loop_returns [OF Inr] a have "length (d ! nat j) \<le> nat (NumObs (model r))"
        by auto
      with a False show ?thesis by linarith
    qed
  qed
next
  assume a: "length d = length (Dataset (model r)) \<and> 0 \<le> NumObs (model r)
      \<and> length (Xpos (model r)) \<le> length (params r)
      \<and> (\<forall>j\<in>set (Xpos (model r)). 0 \<le> j \<and> j < int (length d)
               \<and> int (length (d ! nat j)) \<le> NumObs (model r))"
  let ?fv0 = "replicate (nat (NumObs (model r))) (f_zero ops)"
  have call: "FittedValues ops r (Some d) = FittedValues_loop ops (params r) d 0 (Xpos (model r)) ?fv0"
    using a by (simp add: FittedValues_def make_slice_def)
  have "\<forall>j\<in>set (Xpos (model r)). 0 \<le> j \<and> j < int (length d) \<and> length (d ! nat j) \<le> length ?fv0"
    using a by auto
  from FittedValues_loop_total [OF this, of 0 "params r" ops] a call
  show "\<exists>fv. FittedValues ops r (Some d) = Inr fv" by auto
qed

theorem FittedValues_long_column_witness:
  "FittedValues exact_ops rslt_fit (Some data_long) = Inl IndexOutOfRange
   \<and> FittedValues exact_ops rslt_fit (Some (Dataset (model rslt_fit))) = Inr [Finite 11, Finite 16]"
proof -
  have "length data_long = length (Dataset (model rslt_fit)) \<and> 1 \<in> set (Xpos (model rslt_fit))
      \<and> (0::int) \<le> 1 \<and> 1 < int (length data_long)
      \<and> NumObs (model rslt_fit) < int (length (data_long ! nat 1))"
    by (simp add: data_long_def rslt_fit_def NewBaseResults_def model_of_def)
  then have "FittedValues exact_ops rslt_fit (Some data_long)
      = Inl (if NumObs (model rslt_fit) < 0 then MakeSliceLen else IndexOutOfRange)"
    by (rule FittedValues_long_column [of data_long rslt_fit 1 exact_ops, THEN conjunct1, THEN mp])
  moreover have "\<not> NumObs (model rslt_fit) < 0"
    by (simp add: rslt_fit_def NewBaseResults_def model_of_def)
  ultimately have "FittedValues exact_ops rslt_fit (Some data_long) = Inl IndexOutOfRange"
    by simp
  then show ?thesis
    using FittedValues_rslt_fit by (rule conjI)
qed

subsection \<open>The covariance matrix\<close>

lemma upt_4: "[0..<4] = [0, 1, 2, 3]"
  by (simp add: upt_rec)

text \<open>
  Against claim C5 as it is stated: the expected Hessian \<^verbatim>\<open>{1, 1, 1, 1 + 0x1p-52}\<close> has an
  inverse, \<^verbatim>\<open>{0x1p52 + 1, -0x1p52, -0x1p52, 0x1p52}\<close>, and \<^verbatim>\<open>GetVcov\<close> returns no matrix
  and the error that \<^verbatim>\<open>Inverse\<close> reports on a matrix with this condition number.
\<close>

theorem GetVcov_ill_conditioned_counterexample:
  "mat_mul exact_ops 2
     [Finite (2 ^ 52 + 1), Finite (- (2 ^ 52)), Finite (- (2 ^ 52)), Finite (2 ^ 52)]
     [Finite 1, Finite 1, Finite 1, Finite (1 + 1 / 2 ^ 52)]
     = mat_identity exact_ops 2
   \<and> conditioned_inverse 2 [Finite 1, Finite 1, Finite 1, Finite (1 + 1 / 2 ^ 52)]
       [Finite 0, Finite 0, Finite 0, Finite 0]
     = Inr ([Finite (2 ^ 52 + 1), Finite (- (2 ^ 52)), Finite (- (2 ^ 52)), Finite (2 ^ 52)],
            Some Condition)
   \<and> GetVcov exact_ops conditioned_inverse model_ill_conditioned ()
     = Inr ((None, Some Condition), cant_invert)"
proof (intro conjI)
  show "mat_mul exact_ops 2
     [Finite (2 ^ 52 + 1), Finite (- (2 ^ 52)), Finite (- (2 ^ 52)), Finite (2 ^ 52)]
     [Finite 1, Finite 1, Finite 1, Finite (1 + 1 / 2 ^ 52)]
     = mat_identity exact_ops 2"
    by (simp add: mat_mul_def mat_identity_def mat_entry_def exact_ops_def f_zero_def upt_2 upt_4)
  have z: "replicate 4 (f_zero exact_ops) = [Finite 0, Finite 0, Finite 0, Finite 0]"
    by (simp add: f_zero_def exact_ops_def eval_nat_numeral)
  show inv: "conditioned_inverse 2 [Finite 1, Finite 1, Finite 1, Finite (1 + 1 / 2 ^ 52)]
          [Finite 0, Finite 0, Finite 0, Finite 0]
        = Inr ([Finite (2 ^ 52 + 1), Finite (- (2 ^ 52)), Finite (- (2 ^ 52)), Finite (2 ^ 52)],
               Some Condition)"
    by (simp add: Let_def)
  then show "GetVcov exact_ops conditioned_inverse model_ill_conditioned ()
     = Inr ((None, Some Condition), cant_invert)"
    by (simp add: GetVcov_def model_ill_conditioned_def model_of_def make_slice_def int64_def
        Let_def z)
qed

text \<open>
  Claim C5, amended. For every model with \<open>n\<close> parameters and every parameter,
  \<^verbatim>\<open>GetVcov\<close> hands a buffer of \<open>n * n\<close> zeros to \<^verbatim>\<open>Hessian\<close> with \<^verbatim>\<open>ExpHess\<close> and the
  result to gonum's \<^verbatim>\<open>Inverse\<close> as an \<open>n \<times> n\<close> matrix. Where \<^verbatim>\<open>Inverse\<close> reports no
  error, \<^verbatim>\<open>GetVcov\<close> returns what \<^verbatim>\<open>Inverse\<close> has left, every entry multiplied by \<open>-1\<close>,
  and no error; where \<^verbatim>\<open>Inverse\<close> reports an error, \<^verbatim>\<open>GetVcov\<close> returns no matrix and
  that error, after writing a line to the standard error stream; where \<^verbatim>\<open>Inverse\<close>
  panics, so does \<^verbatim>\<open>GetVcov\<close>.
\<close>

theorem GetVcov_follows_Inverse:
  assumes n: "NumParams m = int n" and fits: "int (n * n) < 2 ^ 63"
    and h: "h = Hessian m prm ExpHess (replicate (n * n) (f_zero ops))"
  shows "GetVcov ops Inverse m prm
           = (case Inverse (int n) h (replicate (n * n) (f_zero ops)) of
                Inl e \<Rightarrow> Inl e
              | Inr (hi, None) \<Rightarrow>
                  Inr ((Some (map (\<lambda>x. f_mul ops (f_const ops (- 1)) x) hi), None), [])
              | Inr (hi, Some err) \<Rightarrow> Inr ((None, Some err), cant_invert))"
proof -
  have "(0::int) \<le> int (n * n)" by (rule of_nat_0_le_iff)
  then have "int64 (int (n * n)) = int (n * n)"
    using fits by (rule int64_id)
  then have n2: "int64 (NumParams m * NumParams m) = int (n * n)"
    using n by simp
  have nn: "nat (int n * int n) = n * n"
    by (simp add: nat_mult_distrib)
  show ?thesis
    using n unfolding GetVcov_def Let_def n2 h
    by (simp add: make_slice_def nn Scale_def split: sum.splits option.splits)
qed

theorem GetVcov_follows_Inverse_witness:
  "GetVcov exact_ops conditioned_inverse model_single () = Inr ((Some [Finite (1 / 4)], None), [])
   \<and> GetVcov exact_ops conditioned_inverse model_singular ()
     = Inr ((None, Some Condition), cant_invert)"
proof -
  have one: "NumParams model_single = int 1" "int (1 * 1) < 2 ^ 63"
    "[Finite (- 4)] = Hessian model_single () ExpHess (replicate (1 * 1) (f_zero exact_ops))"
    by (simp_all add: model_single_def model_of_def)
  have two: "NumParams model_singular = int 2" "int (2 * 2) < 2 ^ 63"
    "[Finite 0, Finite 0, Finite 0, Finite 0]
       = Hessian model_singular () ExpHess (replicate (2 * 2) (f_zero exact_ops))"
    by (simp_all add: model_singular_def model_of_def)
  have z: "replicate (2 * 2) (f_zero exact_ops) = [Finite 0, Finite 0, Finite 0, Finite 0]"
    by (simp add: f_zero_def exact_ops_def eval_nat_numeral)
  have "GetVcov exact_ops conditioned_inverse model_single ()
          = Inr ((Some [Finite (1 / 4)], None), [])"
    unfolding GetVcov_follows_Inverse [where Inverse = conditioned_inverse, OF one]
    by (simp add: f_zero_def exact_ops_def)
  moreover have "GetVcov exact_ops conditioned_inverse model_singular ()
          = Inr ((None, Some Condition), cant_invert)"
    unfolding GetVcov_follows_Inverse [where Inverse = conditioned_inverse, OF two] z
    by simp
  ultimately show ?thesis by (rule conjI)
qed

subsection \<open>The widths of the summary table\<close>

lemma foldl_widest:
  "foldl (\<lambda>w x. if length x > w then length x else w) w0 xs = Max (insert w0 (length ` set xs))"
proof (induction xs arbitrary: w0)
  case Nil
  then show ?case by simp
next
  case (Cons x xs)
  have "Max (insert (if w0 < length x then length x else w0) (length ` set xs))
        = Max (insert w0 (insert (length x) (length ` set xs)))"
    by (cases "set xs = {}") (auto simp: max_def)
  with Cons show ?case by simp
qed

lemma cleanTop_Cons:
  assumes "Top s0 = x0 # xs" and "w = Max (length ` set (x0 # xs))"
  shows "cleanTop s0
         = Inr (s0\<lparr>Top := map (\<lambda>x. if length x < w then x @ Repeat '' '' (w - length x) else x)
                              (x0 # xs)\<rparr>)"
proof -
  have "insert (length x0) (length ` set (x0 # xs)) = length ` set (x0 # xs)"
    by auto
  then have "foldl (\<lambda>w x. if length x > w then length x else w) (length x0) (x0 # xs) = w"
    unfolding foldl_widest assms(2) by (rule arg_cong)
  then show ?thesis
    unfolding cleanTop_def assms(1) by (simp only: list.case Let_def)
qed

lemma cleanTop_returns:
  assumes "cleanTop s0 = Inr s1"
  shows "Top s0 \<noteq> [] \<and> length (Top s1 ! 0) = Max (length ` set (Top s0))
         \<and> Title s1 = Title s0 \<and> ColNames s1 = ColNames s0 \<and> ColFmt s1 = ColFmt s0
         \<and> Cols s1 = Cols s0 \<and> Msg s1 = Msg s0"
proof (cases "Top s0")
  case Nil
  with assms show ?thesis by (simp add: cleanTop_def)
next
  case (Cons x0 xs)
  define w where "w = Max (length ` set (x0 # xs))"
  have "length x0 \<le> w" unfolding w_def by simp
  then have "length (if length x0 < w then x0 @ Repeat '' '' (w - length x0) else x0) = w"
    by (simp add: Repeat_def)
  moreover have "s1 = s0\<lparr>Top := map (\<lambda>x. if length x < w then x @ Repeat '' '' (w - length x) else x)
                              (x0 # xs)\<rparr>"
    using assms cleanTop_Cons [OF Cons w_def] by simp
  ultimately show ?thesis using Cons w_def by simp
qed

lemma String_cols_returns:
  assumes "String_cols s j cs tab wx = Inr (tab', wx')"
  shows "tab' = tab @ map (\<lambda>(k, c). (ColFmt s ! k) c (ColNames s ! k)) (zip [j..<j + length cs] cs)
       \<and> wx' = wx @ map (\<lambda>(k, c). max (length (ColNames s ! k))
                                      (length (hd ((ColFmt s ! k) c (ColNames s ! k)))))
                      (zip [j..<j + length cs] cs)
       \<and> (\<forall>(k, c)\<in>set (zip [j..<j + length cs] cs). (ColFmt s ! k) c (ColNames s ! k) \<noteq> [])
       \<and> (cs \<noteq> [] \<longrightarrow> j + length cs \<le> length (ColFmt s) \<and> j + length cs \<le> length (ColNames s))"
  using assms
proof (induction cs arbitrary: j tab wx)
  case Nil
  then show ?case by simp
next
  case (Cons c cs)
  let ?u = "(ColFmt s ! j) c (ColNames s ! j)"
  from Cons.prems have j: "j < length (ColFmt s)" "j < length (ColNames s)"
    by (auto split: if_splits)
  with Cons.prems obtain u0 us where u: "?u = u0 # us"
    by (cases ?u) (auto simp: Let_def)
  let ?w = "if length u0 > length (ColNames s ! j) then length u0 else length (ColNames s ! j)"
  from Cons.prems j u have rest: "String_cols s (Suc j) cs (tab @ [?u]) (wx @ [?w]) = Inr (tab', wx')"
    by (simp add: Let_def)
  have z: "zip [j..<j + length (c # cs)] (c # cs) = (j, c) # zip [Suc j..<Suc j + length cs] cs"
    by (subst upt_rec) simp
  have w: "?w = max (length (ColNames s ! j)) (length (hd ?u))"
    using u by (simp add: max_def)
  from Cons.IH [OF rest] j u show ?case
    unfolding z w by auto
qed

lemma foldl_sum_widths: "foldl (\<lambda>t w. t + int w) t0 wx = t0 + int (sum_list wx)"
  by (induction wx arbitrary: t0) simp_all

lemma String_returns:
  assumes "String s0 = Inr (txt, s)"
  obtains s1 tab wx where "cleanTop s0 = Inr s1"
    and "String_cols s1 0 (Cols s1) [] [] = Inr (tab, wx)"
    and "tw s = max (max (int (sum_list wx)) (int (length (Title s1))))
                  (10 + 2 * int (length (Top s1 ! 0)))"
    and "Cols s = Cols s1" and "ColNames s = ColNames s1" and "ColFmt s = ColFmt s1"
    and "Title s = Title s1"
proof -
  from assms obtain s1 where s1: "cleanTop s0 = Inr s1"
    by (cases "cleanTop s0") (simp_all add: String_def)
  with assms obtain tab wx where cols: "String_cols s1 0 (Cols s1) [] [] = Inr (tab, wx)"
    by (cases "String_cols s1 0 (Cols s1) [] []") (auto simp: String_def)
  let ?tw0 = "foldl (\<lambda>t w. t + int w) 0 wx"
  let ?tw1 = "if ?tw0 < int (length (Title s1)) then int (length (Title s1)) else ?tw0"
  let ?tw2 = "if ?tw1 < 10 + 2 * int (length (Top s1 ! 0))
              then 10 + 2 * int (length (Top s1 ! 0)) else ?tw1"
  from assms s1 cols have "s = s1\<lparr>tw := ?tw2\<rparr>"
    by (auto simp: String_def Let_def split: sum.splits list.splits)
  then have "tw s = ?tw2" "Cols s = Cols s1" "ColNames s = ColNames s1" "ColFmt s = ColFmt s1"
    "Title s = Title s1"
    by simp_all
  moreover have "?tw2 = max (max (int (sum_list wx)) (int (length (Title s1))))
                  (10 + 2 * int (length (Top s1 ! 0)))"
    by (simp add: foldl_sum_widths max_def)
  ultimately show ?thesis using that s1 cols by simp
qed


lemma String_cols_cong:
  "ColFmt s = ColFmt s' \<Longrightarrow> ColNames s = ColNames s' \<Longrightarrow>
     String_cols s j cs tab wx = String_cols s' j cs tab wx"
  by (induction cs arbitrary: j tab wx) (simp_all add: Let_def split: list.splits)

lemma uniform_widest:
  assumes "xs \<noteq> []" and "\<forall>x\<in>set xs. length x = length (hd xs)"
  shows "Max (length ` set xs) = length (hd xs)"
proof -
  have "length ` set xs = {length (hd xs)}"
    using assms by (cases xs) auto
  then show ?thesis by simp
qed

text \<open>
  Against claim C6 as it is stated: for a column with the header \<open>h\<close> and the values
  \<open>a\<close> and \<open>bbbbbbbbbbbb\<close>, the width is \<open>1\<close>, not \<open>12\<close>, and the table is \<open>10\<close> wide,
  less than its second value, which the row holds uncut.
\<close>

theorem String_ragged_counterexample:
  "String table_ragged
     = Inr (''    T\<newline>==========\<newline>          \<newline>----------\<newline>h\<newline>----------\<newline>a\<newline>bbbbbbbbbbbb\<newline>----------\<newline>'',
            table_ragged\<lparr>tw := 10\<rparr>)
   \<and> String_cols table_ragged 0 (Cols table_ragged) [] [] = Inr ([[''a'', ''bbbbbbbbbbbb'']], [1])
   \<and> max (length ''h'') (Max (length ` set [''a'', ''bbbbbbbbbbbb''])) = 12"
  by (simp add: String_def cleanTop_def table_ragged_def Repeat_def line_def top_part_def
      newline_def Sprintf_left_def Sprintf_right_def RuneCount_def upt_2 Let_def eval_nat_numeral)

text \<open>
  Claim C6, amended. Whenever \<^verbatim>\<open>String\<close> returns, the width \<open>wx[j]\<close> of each column is
  the larger of the length of its header and the length of its first formatted value
  (which is the length of its widest value where the formatter returns values of one
  length); the total width \<open>tw\<close> is the largest of the sum of the column widths, the
  length of the title, and \<open>10\<close> plus twice the length of the longest entry of \<^verbatim>\<open>Top\<close>; so
  the total width is not less than the length of the title, of any header or of the
  first value of any column.
\<close>

theorem String_widths:
  assumes "String s0 = Inr (txt, s)"
  shows "\<exists>tab wx. String_cols s0 0 (Cols s0) [] [] = Inr (tab, wx)
           \<and> length tab = length (Cols s0) \<and> length wx = length (Cols s0)
           \<and> (\<forall>j<length (Cols s0).
                 tab ! j = (ColFmt s0 ! j) (Cols s0 ! j) (ColNames s0 ! j) \<and> tab ! j \<noteq> []
                 \<and> wx ! j = max (length (ColNames s0 ! j)) (length (hd (tab ! j)))
                 \<and> ((\<forall>x\<in>set (tab ! j). length x = length (hd (tab ! j)))
                      \<longrightarrow> wx ! j = max (length (ColNames s0 ! j)) (Max (length ` set (tab ! j))))
                 \<and> int (wx ! j) \<le> tw s)
           \<and> tw s = max (max (int (sum_list wx)) (int (length (Title s0))))
                         (10 + 2 * int (Max (length ` set (Top s0))))
           \<and> int (length (Title s0)) \<le> tw s"
proof -
  from assms obtain s1 tab wx where s1: "cleanTop s0 = Inr s1"
    and cols1: "String_cols s1 0 (Cols s1) [] [] = Inr (tab, wx)"
    and tw: "tw s = max (max (int (sum_list wx)) (int (length (Title s1))))
                  (10 + 2 * int (length (Top s1 ! 0)))"
    by (rule String_returns)
  note top = cleanTop_returns [OF s1]
  have cols: "String_cols s0 0 (Cols s0) [] [] = Inr (tab, wx)"
    using cols1 top String_cols_cong [of s0 s1 0 "Cols s0" "[]" "[]"] by simp
  let ?u = "\<lambda>(k, c). (ColFmt s0 ! k) c (ColNames s0 ! k)"
  let ?w = "\<lambda>(k, c). max (length (ColNames s0 ! k)) (length (hd ((ColFmt s0 ! k) c (ColNames s0 ! k))))"
  let ?z = "zip [0..<length (Cols s0)] (Cols s0)"
  from String_cols_returns [OF cols]
  have tab: "tab = map ?u ?z" and wx: "wx = map ?w ?z" and ne: "\<forall>(k, c)\<in>set ?z. ?u (k, c) \<noteq> []"
    by simp_all
  have len: "length tab = length (Cols s0)" "length wx = length (Cols s0)"
    using tab wx by simp_all
  have each: "tab ! j = (ColFmt s0 ! j) (Cols s0 ! j) (ColNames s0 ! j) \<and> tab ! j \<noteq> []
       \<and> wx ! j = max (length (ColNames s0 ! j)) (length (hd (tab ! j)))
       \<and> ((\<forall>x\<in>set (tab ! j). length x = length (hd (tab ! j)))
            \<longrightarrow> wx ! j = max (length (ColNames s0 ! j)) (Max (length ` set (tab ! j))))
       \<and> int (wx ! j) \<le> tw s" if j: "j < length (Cols s0)" for j
  proof -
    have zj: "?z ! j = (j, Cols s0 ! j)" using j by simp
    have t: "tab ! j = (ColFmt s0 ! j) (Cols s0 ! j) (ColNames s0 ! j)"
      using j zj by (simp add: tab)
    have "(j, Cols s0 ! j) \<in> set ?z"
      using j zj by (metis length_map length_upt length_zip min.idem nth_mem diff_zero)
    with ne have n: "tab ! j \<noteq> []" using t by auto
    have w: "wx ! j = max (length (ColNames s0 ! j)) (length (hd (tab ! j)))"
      using j zj by (simp add: wx t)
    have "wx ! j \<in> set wx" using j len by simp
    then have "wx ! j \<le> sum_list wx" by (simp add: member_le_sum_list)
    then have le: "int (wx ! j) \<le> tw s" unfolding tw by simp
    have u: "(\<forall>x\<in>set (tab ! j). length x = length (hd (tab ! j)))
            \<longrightarrow> wx ! j = max (length (ColNames s0 ! j)) (Max (length ` set (tab ! j)))"
    proof
      assume "\<forall>x\<in>set (tab ! j). length x = length (hd (tab ! j))"
      with n have "Max (length ` set (tab ! j)) = length (hd (tab ! j))"
        by (rule uniform_widest)
      with w show "wx ! j = max (length (ColNames s0 ! j)) (Max (length ` set (tab ! j)))"
        by simp
    qed
    from t n w u le show ?thesis by (intro conjI)
  qed
  have title: "Title s1 = Title s0" and w0: "length (Top s1 ! 0) = Max (length ` set (Top s0))"
    using top by simp_all
  have total: "tw s = max (max (int (sum_list wx)) (int (length (Title s0))))
                  (10 + 2 * int (Max (length ` set (Top s0))))"
    unfolding tw title w0 by (rule refl)
  have title_le: "int (length (Title s0)) \<le> tw s"
    unfolding total by simp
  have all: "\<forall>j<length (Cols s0).
       tab ! j = (ColFmt s0 ! j) (Cols s0 ! j) (ColNames s0 ! j) \<and> tab ! j \<noteq> []
       \<and> wx ! j = max (length (ColNames s0 ! j)) (length (hd (tab ! j)))
       \<and> ((\<forall>x\<in>set (tab ! j). length x = length (hd (tab ! j)))
            \<longrightarrow> wx ! j = max (length (ColNames s0 ! j)) (Max (length ` set (tab ! j))))
       \<and> int (wx ! j) \<le> tw s"
    by (intro allI impI) (rule each)
  show ?thesis
    by (intro exI [of _ tab] exI [of _ wx] conjI) (rule cols len all total title_le)+
qed

theorem String_widths_witness:
  "String table_even
     = Inr (''      Results\<newline>====================\<newline>n: 2           p: 10\<newline>--------------------\<newline> hname\<newline>--------------------\<newline>ab   x\<newline>cd   y\<newline>--------------------\<newline>ok\<newline>'',
            table_even\<lparr>Top := [''n: 2 '', ''p: 10''], tw := 20\<rparr>)
   \<and> String_cols table_even 0 (Cols table_even) [] []
     = Inr ([[''ab'', ''cd''], [''x'', ''y'']], [2, 4])
   \<and> tw (table_even\<lparr>Top := [''n: 2 '', ''p: 10''], tw := 20\<rparr>)
     = max (max (int (sum_list [2, 4])) (int (length ''Results''))) (10 + 2 * int (Max {4, 5}))"
proof -
  let ?txt = "''      Results\<newline>====================\<newline>n: 2           p: 10\<newline>--------------------\<newline> hname\<newline>--------------------\<newline>ab   x\<newline>cd   y\<newline>--------------------\<newline>ok\<newline>''"
  let ?s = "table_even\<lparr>Top := [''n: 2 '', ''p: 10''], tw := 20\<rparr>"
  have run: "String table_even = Inr (?txt, ?s)"
    by (simp add: String_def cleanTop_def table_even_def Repeat_def line_def top_part_def
        newline_def Sprintf_left_def Sprintf_right_def RuneCount_def upt_2 Let_def eval_nat_numeral)
  have cols: "String_cols table_even 0 (Cols table_even) [] []
      = Inr ([[''ab'', ''cd''], [''x'', ''y'']], [2, 4])"
    by (simp add: table_even_def Let_def)
  from String_widths [OF run] obtain tab wx where
    c: "String_cols table_even 0 (Cols table_even) [] [] = Inr (tab, wx)" and
    t: "tw ?s = max (max (int (sum_list wx)) (int (length (Title table_even))))
                  (10 + 2 * int (Max (length ` set (Top table_even))))"
    by (elim exE conjE)
  from c cols have "wx = [2, 4]" by simp
  with t have "tw ?s = max (max (int (sum_list [2, 4])) (int (length (Title table_even))))
                  (10 + 2 * int (Max (length ` set (Top table_even))))"
    by (rule subst [where P = "\<lambda>w. tw ?s = max (max (int (sum_list w)) (int (length (Title table_even))))
                  (10 + 2 * int (Max (length ` set (Top table_even))))", rotated])
  then have "tw ?s = max (max (int (sum_list [2, 4])) (int (length ''Results''))) (10 + 2 * int (Max {4, 5}))"
    by (simp add: table_even_def)
  with run cols show ?thesis by simp
qed

end
